theory Spec2Isabelle
  imports Main "HOL-Library.Word" "HOL-Library.Signed_Division"
begin

section \<open>Bytes and machine integers\<close>

text \<open>
  The tracker (\<^verbatim>\<open>src/main.cpp\<close>) moves fixed-width integers between C structs and
  datagrams. A struct field is a \<open>w word\<close>; what a \<^verbatim>\<open>memcpy\<close>, a \<^verbatim>\<open>memcmp\<close>, a pointer
  cast or a \<^verbatim>\<open>sendto\<close> sees of it is its memory image, which depends on the byte order of
  the host. The byte order is a parameter of the model, so that nothing proved below
  rests on the tracker running on a little-endian machine.
\<close>

type_synonym byte = "8 word"
type_synonym uint16_t = "16 word"
type_synonym uint32_t = "32 word"
type_synonym uint64_t = "64 word"

datatype byte_order = LittleEndian | BigEndian

fun le_bytes :: "nat \<Rightarrow> nat \<Rightarrow> byte list" where
  "le_bytes 0 v = []"
| "le_bytes (Suc n) v = of_nat (v mod 256) # le_bytes n (v div 256)"

fun le_value :: "byte list \<Rightarrow> nat" where
  "le_value [] = 0"
| "le_value (b # bs) = unat b + 256 * le_value bs"

text \<open>\<open>store h w\<close> is the memory image of the integer \<open>w\<close> on a host of byte order \<open>h\<close>;
  \<open>load h bs\<close> reads an integer back from such an image.\<close>

definition store :: "byte_order \<Rightarrow> 'a::len word \<Rightarrow> byte list" where
  "store h w =
     (case h of
        LittleEndian \<Rightarrow> le_bytes (LENGTH('a) div 8) (unat w)
      | BigEndian \<Rightarrow> rev (le_bytes (LENGTH('a) div 8) (unat w)))"

definition load :: "byte_order \<Rightarrow> byte list \<Rightarrow> 'a::len word" where
  "load h bs = of_nat (le_value (case h of LittleEndian \<Rightarrow> bs | BigEndian \<Rightarrow> rev bs))"

text \<open>The conversions between host and network (big-endian) order: \<^verbatim>\<open>htonl\<close> yields the
  integer whose memory image is the big-endian image of its argument, \<^verbatim>\<open>ntohl\<close> and
  \<^verbatim>\<open>be64toh\<close> read a memory image as a big-endian number.\<close>

definition htonl :: "byte_order \<Rightarrow> uint32_t \<Rightarrow> uint32_t" where
  "htonl h x = load h (store BigEndian x)"

definition ntohl :: "byte_order \<Rightarrow> uint32_t \<Rightarrow> uint32_t" where
  "ntohl h x = load BigEndian (store h x)"

definition be64toh :: "byte_order \<Rightarrow> uint64_t \<Rightarrow> uint64_t" where
  "be64toh h x = load BigEndian (store h x)"

text \<open>A C \<^verbatim>\<open>int\<close> is 32 bits wide, two's complement; \<open>int32 x\<close> is the value an \<^verbatim>\<open>int\<close>
  holds when the exact result of an operation is \<open>x\<close> (the product wraps around, as the
  multiplication instruction does).\<close>

definition int32 :: "int \<Rightarrow> int" where
  "int32 x = (x + 2 ^ 31) mod 2 ^ 32 - 2 ^ 31"

text \<open>\<open>field off n buf\<close>: the \<open>n\<close> bytes of \<open>buf\<close> starting at offset \<open>off\<close>.\<close>

definition field :: "nat \<Rightarrow> nat \<Rightarrow> byte list \<Rightarrow> byte list" where
  "field off n buf = take n (drop off buf)"

section \<open>Data model\<close>

type_synonym sha1_hash = "byte list"

text \<open>\<^verbatim>\<open>sockaddr_in\<close>: the address and the port, both kept in network byte order as the
  kernel delivers them.\<close>

record sockaddr_in =
  sin_addr :: uint32_t
  sin_port :: uint16_t

text \<open>Modelled from the spec: the layout of \<^verbatim>\<open>udp_announce_message\<close> (declared in
  \<^verbatim>\<open>messages.hpp\<close>, which is not among the sources) is the announce request of section 4.1:
  \<open>connection_id: u64\<close> at offset 0, \<open>action: u32\<close> at 8, \<open>transaction_id: u32\<close> at 12,
  \<open>info_hash\<close> at 16, \<open>peer_id\<close> at 36, \<open>downloaded\<close>, \<open>left\<close>, \<open>uploaded: u64\<close> at 56, 64, 72,
  \<open>event\<close>, \<open>ip\<close>, \<open>key\<close>, \<open>num_want: u32\<close> at 80, 84, 88, 92 and \<open>port: u16\<close> at 96.\<close>

record udp_announce_message =
  connection_id :: uint64_t
  action :: uint32_t
  transaction_id :: uint32_t
  hash :: sha1_hash
  peer_id :: sha1_hash
  downloaded :: uint64_t
  left :: uint64_t
  uploaded :: uint64_t
  event :: uint32_t
  ip :: uint32_t
  key :: uint32_t
  num_want :: uint32_t
  port :: uint16_t

text \<open>The cast \<^verbatim>\<open>(udp_announce_message*)buffer\<close>: every field is read from its offset in
  the host's byte order.\<close>

definition as_udp_announce_message :: "byte_order \<Rightarrow> byte list \<Rightarrow> udp_announce_message" where
  "as_udp_announce_message h buffer =
     \<lparr> connection_id = load h (field 0 8 buffer),
       action = load h (field 8 4 buffer),
       transaction_id = load h (field 12 4 buffer),
       hash = field 16 20 buffer,
       peer_id = field 36 20 buffer,
       downloaded = load h (field 56 8 buffer),
       left = load h (field 64 8 buffer),
       uploaded = load h (field 72 8 buffer),
       event = load h (field 80 4 buffer),
       ip = load h (field 84 4 buffer),
       key = load h (field 88 4 buffer),
       num_want = load h (field 92 4 buffer),
       port = load h (field 96 2 buffer) \<rparr>"

text \<open>Modelled from the spec: \<^verbatim>\<open>udp_scrape_message\<close> (also of \<^verbatim>\<open>messages.hpp\<close>) is the
  16-byte header followed by the info-hashes, 20 bytes each; \<open>scrape_hash buffer i\<close> is
  \<^verbatim>\<open>req->hash[i]\<close>.\<close>

definition scrape_hash :: "byte list \<Rightarrow> nat \<Rightarrow> sha1_hash" where
  "scrape_hash buffer i = field (16 + 20 * i) 20 buffer"

text \<open>Modelled from the spec: the action codes of \<^verbatim>\<open>messages.hpp\<close> are those of section 4.1.\<close>

definition action_connect :: uint32_t where "action_connect = 0"
definition action_announce :: uint32_t where "action_announce = 1"
definition action_scrape :: uint32_t where "action_scrape = 2"

text \<open>One entry of \<^verbatim>\<open>udp_scrape_response::data\<close>.\<close>

record scrape_data =
  seeds :: uint32_t
  download_count :: uint32_t
  downloaders :: uint32_t

text \<open>Modelled from the spec: the memory images of the three response structs, laid out
  as section 4.1 gives them. The connect response is \<open>action\<close>, \<open>transaction_id\<close>,
  \<open>connection_id\<close>; the announce response header is \<open>action\<close>, \<open>transaction_id\<close>,
  \<open>interval\<close>, \<open>downloaders\<close> (leechers), \<open>seeds\<close>; the scrape response is \<open>action\<close>,
  \<open>transaction_id\<close> and the array \<open>data\<close>, of which \<open>n\<close> entries are laid out here.\<close>

definition udp_connect_response :: "byte_order \<Rightarrow> uint32_t \<Rightarrow> uint32_t \<Rightarrow> uint64_t \<Rightarrow> byte list" where
  "udp_connect_response h act tid cid = store h act @ store h tid @ store h cid"

definition udp_announce_response ::
  "byte_order \<Rightarrow> uint32_t \<Rightarrow> uint32_t \<Rightarrow> uint32_t \<Rightarrow> uint32_t \<Rightarrow> uint32_t \<Rightarrow> byte list" where
  "udp_announce_response h act tid ival dl sd =
     store h act @ store h tid @ store h ival @ store h dl @ store h sd"

definition scrape_data_bytes :: "byte_order \<Rightarrow> scrape_data \<Rightarrow> byte list" where
  "scrape_data_bytes h d = store h (seeds d) @ store h (download_count d) @ store h (downloaders d)"

definition udp_scrape_response ::
  "byte_order \<Rightarrow> uint32_t \<Rightarrow> uint32_t \<Rightarrow> (nat \<Rightarrow> scrape_data) \<Rightarrow> nat \<Rightarrow> byte list" where
  "udp_scrape_response h act tid data n =
     store h act @ store h tid @ concat (map (\<lambda>i. scrape_data_bytes h (data i)) [0..<n])"

text \<open>
  What the tracker is built and started with. The SHA-1 routines are OpenSSL's, the swarm
  class is declared in \<^verbatim>\<open>swarm.hpp\<close> and \<^verbatim>\<open>max_scrape_responses\<close> in \<^verbatim>\<open>messages.hpp\<close>;
  none of them is among the sources, so they are parameters:
  \<^item> \<open>SHA1_Update\<close> feeds bytes to a hashing context, \<open>SHA1_Final\<close> yields the 160-bit
    digest, which is written out as 20 bytes, most significant first;
  \<^item> \<open>secret\<close> is the context \<^verbatim>\<open>main\<close> prepares from the random key;
  \<^item> \<open>new_swarm\<close> is a freshly constructed swarm; \<open>swarm_announce s hdr\<close> yields the
    swarm after the announce, the peer bytes to return (\<^verbatim>\<open>buf\<close>, \<^verbatim>\<open>len\<close>) and the
    numbers of downloaders and seeds; \<open>swarm_scrape s\<close> yields seeds, download count and
    downloaders;
  \<^item> \<open>RAND_MAX\<close> is the C library's.
\<close>

record ('ctx, 'sw) config =
  host_order :: byte_order
  RAND_MAX :: int
  max_scrape_responses :: nat
  allow_alternate_ip :: bool
  secret :: 'ctx
  SHA1_Update :: "'ctx \<Rightarrow> byte list \<Rightarrow> 'ctx"
  SHA1_Final :: "'ctx \<Rightarrow> 160 word"
  new_swarm :: 'sw
  swarm_announce :: "'sw \<Rightarrow> udp_announce_message \<Rightarrow> 'sw \<times> byte list \<times> uint32_t \<times> uint32_t"
  swarm_scrape :: "'sw \<Rightarrow> uint32_t \<times> uint32_t \<times> uint32_t"

section \<open>The connection id\<close>

definition gen_secret_digest :: "('ctx, 'sw) config \<Rightarrow> sockaddr_in \<Rightarrow> byte list" where
  "gen_secret_digest cfg from =
     (let ctx = secret cfg;
          ctx = SHA1_Update cfg ctx (store (host_order cfg) (sin_addr from));
          ctx = SHA1_Update cfg ctx (store (host_order cfg) (sin_port from))
      in store BigEndian (SHA1_Final cfg ctx))"

definition generate_connection_id :: "('ctx, 'sw) config \<Rightarrow> sockaddr_in \<Rightarrow> uint64_t" where
  "generate_connection_id cfg from = load (host_order cfg) (take 8 (gen_secret_digest cfg from))"

definition verify_connection_id :: "('ctx, 'sw) config \<Rightarrow> uint64_t \<Rightarrow> sockaddr_in \<Rightarrow> bool" where
  "verify_connection_id cfg conn_id from \<longleftrightarrow>
     store (host_order cfg) conn_id = take 8 (gen_secret_digest cfg from)"

section \<open>The worker\<close>

text \<open>
  The process-wide state a worker reads and writes: the six counters (\<^verbatim>\<open>uint32_t\<close>,
  updated with \<^verbatim>\<open>__sync_fetch_and_add\<close>) and the swarm table. \<open>sent\<close> is the log of
  the datagrams the kernel accepted from this worker, each with its destination; it is
  how the model records a response.
\<close>

record 'sw tracker =
  connects :: uint32_t
  announces :: uint32_t
  scrapes :: uint32_t
  errors :: uint32_t
  bytes_out :: uint32_t
  bytes_in :: uint32_t
  swarms :: "sha1_hash \<rightharpoonup> 'sw"
  sent :: "(sockaddr_in \<times> byte list) list"

text \<open>
  What the outside world does during one turn of the worker's loop:
  \<^item> the result of \<^verbatim>\<open>recvfrom\<close>: the sender and the bytes stored in the buffer (\<^verbatim>\<open>size\<close>,
    here \<open>sz\<close>, is their number), or \<open>-1\<close> with an \<^verbatim>\<open>errno\<close>;
  \<^item> the value \<^verbatim>\<open>rand()\<close> returns when it is called;
  \<^item> what the stack holds where \<^verbatim>\<open>udp_scrape_response resp\<close> is placed: the variable
    is declared without an initializer, so \<open>resp_before i\<close> is the content of
    \<^verbatim>\<open>resp.data[i]\<close> until the code writes to it;
  \<^item> the result of the \<open>k\<close>-th call of \<^verbatim>\<open>sendto\<close> or \<^verbatim>\<open>sendmsg\<close> in this turn: the number
    of bytes sent, or \<open>-1\<close> with an \<^verbatim>\<open>errno\<close>.
\<close>

datatype recv_result = Received sockaddr_in "byte list" | RecvFailed int

datatype send_result = SendOk nat | SendFailed int

definition EINTR :: int where "EINTR = 4"

record io =
  recvfrom_result :: recv_result
  rand_result :: int
  resp_before :: "nat \<Rightarrow> scrape_data"
  send_results :: "nat \<Rightarrow> send_result"

text \<open>How a turn of the loop ends: the loop goes on to the next \<^verbatim>\<open>recvfrom\<close>, or the
  thread function leaves the loop and returns.\<close>

datatype outcome = Continue | Exit

text \<open>
  \<^verbatim>\<open>respond\<close>: send a packet and retry on \<^verbatim>\<open>EINTR\<close>. \<open>k\<close> counts the calls of \<^verbatim>\<open>sendto\<close>
  made so far in this turn. The result is \<open>True\<close> when the send failed, as in the
  source; \<open>None\<close> when \<^verbatim>\<open>sendto\<close> is interrupted every time and the function never
  returns.
\<close>

partial_function (option) respond ::
  "(nat \<Rightarrow> send_result) \<Rightarrow> nat \<Rightarrow> byte list \<Rightarrow> sockaddr_in \<Rightarrow> 'sw tracker \<Rightarrow> (bool \<times> 'sw tracker) option"
where
  "respond sys k buf dest st =
     (case sys k of
        SendFailed e \<Rightarrow>
          if e = EINTR then respond sys (Suc k) buf dest st
          else Some (True, st)
      | SendOk ret \<Rightarrow>
          Some (False, st\<lparr>bytes_out := bytes_out st + of_nat ret, sent := sent st @ [(dest, buf)]\<rparr>))"

text \<open>The three cases of the \<^verbatim>\<open>switch\<close> in \<^verbatim>\<open>tracker_thread\<close>. Each takes the state after
  \<^verbatim>\<open>bytes_in\<close> was updated.\<close>

definition connect_case ::
  "('ctx, 'sw) config \<Rightarrow> io \<Rightarrow> sockaddr_in \<Rightarrow> udp_announce_message \<Rightarrow> 'sw tracker \<Rightarrow> (outcome \<times> 'sw tracker) option"
where
  "connect_case cfg w from hdr st =
     (if be64toh (host_order cfg) (connection_id hdr) \<noteq> 0x41727101980
      then Some (Continue, st\<lparr>errors := errors st + 1\<rparr>)
      else
        let resp = udp_connect_response (host_order cfg)
                     (htonl (host_order cfg) action_connect)
                     (transaction_id hdr)
                     (generate_connection_id cfg from);
            st = st\<lparr>connects := connects st + 1\<rparr>
        in case respond (send_results w) 0 (take 16 resp) from st of
             None \<Rightarrow> None
           | Some (failed, st) \<Rightarrow> Some (if failed then Exit else Continue, st))"

text \<open>\<open>announce_interval\<close> is the expression \<^verbatim>\<open>1680 + rand() * 240 / RAND_MAX\<close> of line 279,
  on 32-bit \<^verbatim>\<open>int\<close>s; \<open>sdiv\<close> truncates towards zero as C's division does.\<close>

definition announce_interval :: "('ctx, 'sw) config \<Rightarrow> int \<Rightarrow> int" where
  "announce_interval cfg r = int32 (1680 + int32 (r * 240) sdiv RAND_MAX cfg)"

definition announce_case ::
  "('ctx, 'sw) config \<Rightarrow> io \<Rightarrow> sockaddr_in \<Rightarrow> nat \<Rightarrow> udp_announce_message \<Rightarrow> 'sw tracker \<Rightarrow> (outcome \<times> 'sw tracker) option"
where
  "announce_case cfg w from sz hdr st =
     (if \<not> verify_connection_id cfg (connection_id hdr) from
      then Some (Continue, st\<lparr>errors := errors st + 1\<rparr>)
      else if sz < 98
      then Some (Continue, st\<lparr>errors := errors st + 1\<rparr>)
      else
        let st = st\<lparr>announces := announces st + 1\<rparr>;
            hdr = (if \<not> allow_alternate_ip cfg \<or> ip hdr = 0 then hdr\<lparr>ip := sin_addr from\<rparr> else hdr);
            (s, st) = (case swarms st (hash hdr) of
                         Some s \<Rightarrow> (s, st)
                       | None \<Rightarrow> (new_swarm cfg, st\<lparr>swarms := (swarms st)(hash hdr \<mapsto> new_swarm cfg)\<rparr>));
            interval = htonl (host_order cfg) (of_int (announce_interval cfg (rand_result w)));
            (s, buf, resp_downloaders, resp_seeds) = swarm_announce cfg s hdr;
            st = st\<lparr>swarms := (swarms st)(hash hdr \<mapsto> s)\<rparr>;
            msg = udp_announce_response (host_order cfg)
                    (htonl (host_order cfg) action_announce)
                    (transaction_id hdr)
                    interval
                    (htonl (host_order cfg) resp_downloaders)
                    (htonl (host_order cfg) resp_seeds) @ buf
        in case send_results w 0 of
             SendFailed e \<Rightarrow> if e = EINTR then Some (Continue, st) else Some (Exit, st)
           | SendOk r \<Rightarrow>
               Some (Continue, st\<lparr>bytes_out := bytes_out st + of_nat r, sent := sent st @ [(from, msg)]\<rparr>))"

text \<open>The loop over the hashes of a scrape (lines 346 to 359): slot \<open>i\<close> of the response is
  written only when the table has a swarm for \<^verbatim>\<open>req->hash[i]\<close>.\<close>

definition scrape_slot ::
  "('ctx, 'sw) config \<Rightarrow> (sha1_hash \<rightharpoonup> 'sw) \<Rightarrow> byte list \<Rightarrow> nat \<Rightarrow> (nat \<Rightarrow> scrape_data) \<Rightarrow> (nat \<Rightarrow> scrape_data)"
where
  "scrape_slot cfg table buffer i data =
     (case table (scrape_hash buffer i) of
        Some s \<Rightarrow>
          (case swarm_scrape cfg s of
             (sd, dc, dl) \<Rightarrow>
               data(i := \<lparr> seeds = htonl (host_order cfg) sd,
                            download_count = htonl (host_order cfg) dc,
                            downloaders = htonl (host_order cfg) dl \<rparr>))
      | None \<Rightarrow> data)"

definition scrape_case ::
  "('ctx, 'sw) config \<Rightarrow> io \<Rightarrow> sockaddr_in \<Rightarrow> byte list \<Rightarrow> udp_announce_message \<Rightarrow> 'sw tracker \<Rightarrow> (outcome \<times> 'sw tracker) option"
where
  "scrape_case cfg w from buffer hdr st =
     (if \<not> verify_connection_id cfg (connection_id hdr) from
      then Some (Continue, st\<lparr>errors := errors st + 1\<rparr>)
      else if length buffer < 16 + 20
      then Some (Continue, st\<lparr>errors := errors st + 1\<rparr>)
      else
        let st = st\<lparr>scrapes := scrapes st + 1\<rparr>;
            num_hashes = min ((length buffer - 16) div 20) (max_scrape_responses cfg);
            data = fold (scrape_slot cfg (swarms st) buffer) [0..<num_hashes] (resp_before w);
            resp = udp_scrape_response (host_order cfg)
                     (htonl (host_order cfg) action_scrape)
                     (transaction_id hdr)
                     data num_hashes
        in case respond (send_results w) 0 (take (8 + num_hashes * 12) resp) from st of
             None \<Rightarrow> None
           | Some (failed, st) \<Rightarrow> Some (if failed then Exit else Continue, st))"

text \<open>One turn of the \<^verbatim>\<open>for (;;)\<close> loop of \<^verbatim>\<open>tracker_thread\<close>, from \<^verbatim>\<open>recvfrom\<close> on.
  The code before the loop, which blocks the signals and opens and binds the send
  socket, is not part of the model.\<close>

definition tracker_thread_turn ::
  "('ctx, 'sw) config \<Rightarrow> io \<Rightarrow> 'sw tracker \<Rightarrow> (outcome \<times> 'sw tracker) option"
where
  "tracker_thread_turn cfg w st =
     (case recvfrom_result w of
        RecvFailed e \<Rightarrow> if e = EINTR then Some (Continue, st) else Some (Exit, st)
      | Received from buffer \<Rightarrow>
          let sz = length buffer;
              st = st\<lparr>bytes_in := bytes_in st + of_nat sz\<rparr>
          in if sz < 16 then Some (Continue, st)
             else
               let hdr = as_udp_announce_message (host_order cfg) buffer;
                   a = ntohl (host_order cfg) (action hdr)
               in if a = action_connect then connect_case cfg w from hdr st
                  else if a = action_announce then announce_case cfg w from sz hdr st
                  else if a = action_scrape then scrape_case cfg w from buffer hdr st
                  else Some (Continue, st\<lparr>errors := errors st + 1\<rparr>))"

text \<open>The loop itself, run against the turns the outside world offers. When they are
  used up the worker is blocked in \<^verbatim>\<open>recvfrom\<close>, which is \<open>Continue\<close>.\<close>

fun tracker_thread ::
  "('ctx, 'sw) config \<Rightarrow> io list \<Rightarrow> 'sw tracker \<Rightarrow> (outcome \<times> 'sw tracker) option"
where
  "tracker_thread cfg [] st = Some (Continue, st)"
| "tracker_thread cfg (w # ws) st =
     (case tracker_thread_turn cfg w st of
        None \<Rightarrow> None
      | Some (Exit, st) \<Rightarrow> Some (Exit, st)
      | Some (Continue, st) \<Rightarrow> tracker_thread cfg ws st)"

section \<open>Facts about memory images\<close>

lemma length_le_bytes: "length (le_bytes n v) = n"
  by (induction n arbitrary: v) auto

lemma le_bytes_numeral:
  "le_bytes (numeral k) v = of_nat (v mod 256) # le_bytes (pred_numeral k) (v div 256)"
  by (simp add: numeral_eq_Suc [of k])

lemma unat_byte_less: "unat (b :: byte) < 256"
  using unsigned_less [of b, where 'a = nat] by simp

lemma le_value_bound: "le_value bs < 256 ^ length bs"
proof (induction bs)
  case Nil
  then show ?case by simp
next
  case (Cons b bs)
  with unat_byte_less [of b] show ?case by simp
qed

lemma le_value_le_bytes: "le_value (le_bytes n v) = v mod 256 ^ n"
proof (induction n arbitrary: v)
  case 0
  then show ?case by simp
next
  case (Suc n)
  have "unat (of_nat (v mod 256) :: byte) = v mod 256"
    by (simp add: unat_of_nat)
  with Suc show ?case
    by (simp add: mod_mult2_eq)
qed

lemma le_bytes_le_value: "le_bytes (length bs) (le_value bs) = bs"
proof (induction bs)
  case Nil
  then show ?case by simp
next
  case (Cons b bs)
  with unat_byte_less [of b] show ?case by simp
qed

lemma power_256: "(256::nat) ^ n = 2 ^ (8 * n)"
  by (simp add: power_mult)

lemma length_store: "length (store h (w :: 'a::len word)) = LENGTH('a) div 8"
  by (cases h) (simp_all add: store_def length_le_bytes)

lemma store_load:
  assumes "8 * length bs = LENGTH('a::len)"
  shows "store h (load h bs :: 'a word) = bs"
proof -
  have pow: "(256::nat) ^ length bs = 2 ^ LENGTH('a)"
    using assms by (simp add: power_256)
  have len: "LENGTH('a) div 8 = length bs"
    using assms by (metis nonzero_mult_div_cancel_left zero_neq_numeral)
  have un: "unat (of_nat (le_value cs) :: 'a word) = le_value cs" if "length cs = length bs" for cs
  proof -
    have "le_value cs < 2 ^ LENGTH('a)"
      using le_value_bound [of cs] that pow by simp
    then show ?thesis
      by (simp add: unat_of_nat)
  qed
  show ?thesis
  proof (cases h)
    case LittleEndian
    then show ?thesis
      using un [of bs] le_bytes_le_value [of bs] by (simp add: store_def load_def len)
  next
    case BigEndian
    then show ?thesis
      using un [of "rev bs"] le_bytes_le_value [of "rev bs"] by (simp add: store_def load_def len)
  qed
qed

lemma load_store:
  assumes "8 dvd LENGTH('a::len)"
  shows "load h (store h (w :: 'a word)) = w"
proof -
  from assms obtain n where n: "LENGTH('a) = 8 * n" ..
  have "(256::nat) ^ n = 2 ^ LENGTH('a)"
    using n by (simp add: power_256)
  moreover have "unat w < 2 ^ LENGTH('a)"
    by (rule unsigned_less)
  ultimately have "unat w mod 256 ^ n = unat w"
    by simp
  then show ?thesis
    using n by (cases h) (simp_all add: store_def load_def le_value_le_bytes)
qed

lemma length_gen_secret_digest: "length (gen_secret_digest cfg from) = 20"
  by (simp add: gen_secret_digest_def Let_def length_store)

lemma connection_id_image:
  "store (host_order cfg) (generate_connection_id cfg e) = take 8 (gen_secret_digest cfg e)"
  unfolding generate_connection_id_def
  by (rule store_load) (simp add: length_gen_secret_digest)

section \<open>Facts about sending and about the header\<close>

lemma respond_interrupted:
  "sys k = SendFailed EINTR \<Longrightarrow> respond sys k buf dest st = respond sys (Suc k) buf dest st"
  by (subst respond.simps) simp

lemma respond_sent:
  assumes "\<forall>j<n. sys (k + j) = SendFailed EINTR" and "sys (k + n) = SendOk r"
  shows "respond sys k buf dest st =
    Some (False, st\<lparr>bytes_out := bytes_out st + of_nat r, sent := sent st @ [(dest, buf)]\<rparr>)"
  using assms
proof (induction n arbitrary: k)
  case 0
  then show ?case by (subst respond.simps) simp
next
  case (Suc n)
  from Suc.prems have "sys k = SendFailed EINTR" by (metis add.right_neutral zero_less_Suc)
  moreover have "\<forall>j<n. sys (Suc k + j) = SendFailed EINTR"
    using Suc.prems(1) by (metis Suc_less_eq add_Suc_shift)
  moreover have "sys (Suc k + n) = SendOk r"
    using Suc.prems(2) by simp
  ultimately show ?case
    using Suc.IH [of "Suc k"] by (simp add: respond_interrupted)
qed

lemma respond_failed:
  assumes "\<forall>j<n. sys (k + j) = SendFailed EINTR" and "sys (k + n) = SendFailed e" and "e \<noteq> EINTR"
  shows "respond sys k buf dest st = Some (True, st)"
  using assms
proof (induction n arbitrary: k)
  case 0
  then show ?case by (subst respond.simps) simp
next
  case (Suc n)
  from Suc.prems have "sys k = SendFailed EINTR" by (metis add.right_neutral zero_less_Suc)
  moreover have "\<forall>j<n. sys (Suc k + j) = SendFailed EINTR"
    using Suc.prems(1) by (metis Suc_less_eq add_Suc_shift)
  moreover have "sys (Suc k + n) = SendFailed e"
    using Suc.prems(2) by simp
  ultimately show ?case
    using Suc.IH [of "Suc k"] Suc.prems(3) by (simp add: respond_interrupted)
qed

lemma respond_Some_stops:
  assumes "respond sys k buf dest st = Some y"
  shows "\<exists>n. sys (k + n) \<noteq> SendFailed EINTR"
proof (rule respond.raw_induct
    [where P = "\<lambda>sys k buf dest st y. \<exists>n. sys (k + n) \<noteq> SendFailed EINTR", OF _ assms], goal_cases)
  case (1 f sys k buf dest st y)
  show ?case
  proof (cases "sys k = SendFailed EINTR")
    case True
    with 1(2) have "f sys (Suc k) buf dest st = Some y"
      by simp
    from 1(1) [OF this] obtain n where "sys (Suc k + n) \<noteq> SendFailed EINTR" ..
    then have "sys (k + Suc n) \<noteq> SendFailed EINTR"
      by simp
    then show ?thesis ..
  next
    case False
    then have "sys (k + 0) \<noteq> SendFailed EINTR"
      by simp
    then show ?thesis ..
  qed
qed

lemma respond_never:
  assumes "\<forall>n. sys (k + n) = SendFailed EINTR"
  shows "respond sys k buf dest st = None"
proof (cases "respond sys k buf dest st")
  case None
  then show ?thesis .
next
  case (Some y)
  from respond_Some_stops [OF this] assms show ?thesis
    by blast
qed

lemma respond_cases:
  fixes sys :: "nat \<Rightarrow> send_result" and k :: nat
  obtains (never) "\<forall>n. sys (k + n) = SendFailed EINTR"
  | (sent) n r where "\<forall>j<n. sys (k + j) = SendFailed EINTR" "sys (k + n) = SendOk r"
  | (failed) n e where "\<forall>j<n. sys (k + j) = SendFailed EINTR" "sys (k + n) = SendFailed e" "e \<noteq> EINTR"
proof (cases "\<forall>n. sys (k + n) = SendFailed EINTR")
  case True
  then show ?thesis by (rule never)
next
  case False
  define n where "n = (LEAST n. sys (k + n) \<noteq> SendFailed EINTR)"
  from False obtain m where "sys (k + m) \<noteq> SendFailed EINTR"
    by blast
  then have stop: "sys (k + n) \<noteq> SendFailed EINTR"
    unfolding n_def by (rule LeastI [of "\<lambda>n. sys (k + n) \<noteq> SendFailed EINTR"])
  have before: "\<forall>j<n. sys (k + j) = SendFailed EINTR"
    unfolding n_def using not_less_Least by blast
  show ?thesis
  proof (cases "sys (k + n)")
    case (SendOk r)
    with before show ?thesis by (rule sent)
  next
    case (SendFailed e)
    with stop have "e \<noteq> EINTR" by auto
    with before SendFailed show ?thesis by (rule failed)
  qed
qed

lemma respond_bytes_in:
  "respond sys k buf dest (st\<lparr>bytes_in := x\<rparr>) =
     map_option (\<lambda>(failed, st'). (failed, st'\<lparr>bytes_in := x\<rparr>)) (respond sys k buf dest st)"
proof (cases rule: respond_cases [of sys k])
  case never
  then show ?thesis by (simp add: respond_never)
next
  case (sent n r)
  then show ?thesis by (simp add: respond_sent)
next
  case (failed n e)
  then show ?thesis by (simp add: respond_failed)
qed

lemma length_field: "off + n \<le> length buf \<Longrightarrow> length (field off n buf) = n"
  by (simp add: field_def)

lemma field_take: "off + n \<le> m \<Longrightarrow> field off n (take m buf) = field off n buf"
  by (simp add: field_def drop_take min_def)

lemma field_after_prefix: "length p = m \<Longrightarrow> field (m + off) n (p @ xs) = field off n xs"
  by (simp add: field_def)

lemma store_htonl: "store h (htonl h x) = store BigEndian x"
  unfolding htonl_def by (rule store_load) (simp add: length_store)

lemma ntohl_load: "length bs = 4 \<Longrightarrow> ntohl h (load h bs) = load BigEndian bs"
  unfolding ntohl_def by (simp add: store_load)

lemma be64toh_load: "length bs = 8 \<Longrightarrow> be64toh h (load h bs) = load BigEndian bs"
  unfolding be64toh_def by (simp add: store_load)

lemma header_fields:
  assumes "16 \<le> length buffer"
  shows "be64toh h (connection_id (as_udp_announce_message h buffer)) = load BigEndian (field 0 8 buffer)"
    and "ntohl h (action (as_udp_announce_message h buffer)) = load BigEndian (field 8 4 buffer)"
    and "store h (transaction_id (as_udp_announce_message h buffer)) = field 12 4 buffer"
    and "store h (connection_id (as_udp_announce_message h buffer)) = field 0 8 buffer"
  using assms
  by (simp_all add: as_udp_announce_message_def be64toh_load ntohl_load store_load length_field)



section \<open>Facts about the worker\<close>

lemma turn_dispatch:
  assumes "recvfrom_result w = Received from buffer" and "16 \<le> length buffer"
  shows "tracker_thread_turn cfg w st =
    (let st = st\<lparr>bytes_in := bytes_in st + of_nat (length buffer)\<rparr>;
         hdr = as_udp_announce_message (host_order cfg) buffer;
         a = (load BigEndian (field 8 4 buffer) :: uint32_t)
     in if a = action_connect then connect_case cfg w from hdr st
        else if a = action_announce then announce_case cfg w from (length buffer) hdr st
        else if a = action_scrape then scrape_case cfg w from buffer hdr st
        else Some (Continue, st\<lparr>errors := errors st + 1\<rparr>))"
  using assms by (simp add: tracker_thread_turn_def header_fields Let_def)

lemma announce_case_unverified:
  "\<not> verify_connection_id cfg (connection_id hdr) from \<Longrightarrow>
   announce_case cfg w from sz hdr st = Some (Continue, st\<lparr>errors := errors st + 1\<rparr>)"
  by (simp add: announce_case_def)

lemma scrape_case_unverified:
  "\<not> verify_connection_id cfg (connection_id hdr) from \<Longrightarrow>
   scrape_case cfg w from buffer hdr st = Some (Continue, st\<lparr>errors := errors st + 1\<rparr>)"
  by (simp add: scrape_case_def)

lemma announce_case_verified:
  assumes "verify_connection_id cfg (connection_id hdr) from" and "98 \<le> sz"
  shows "announce_case cfg w from sz hdr st =
    (let hdr' = hdr\<lparr>ip := (if allow_alternate_ip cfg \<and> ip hdr \<noteq> 0 then ip hdr else sin_addr from)\<rparr>;
         s0 = (case swarms st (hash hdr) of Some s \<Rightarrow> s | None \<Rightarrow> new_swarm cfg);
         res = swarm_announce cfg s0 hdr';
         st' = st\<lparr>announces := announces st + 1, swarms := (swarms st)(hash hdr \<mapsto> fst res)\<rparr>;
         msg = udp_announce_response (host_order cfg)
                 (htonl (host_order cfg) action_announce)
                 (transaction_id hdr)
                 (htonl (host_order cfg) (of_int (announce_interval cfg (rand_result w))))
                 (htonl (host_order cfg) (fst (snd (snd res))))
                 (htonl (host_order cfg) (snd (snd (snd res)))) @ fst (snd res)
     in case send_results w 0 of
          SendFailed e \<Rightarrow> if e = EINTR then Some (Continue, st') else Some (Exit, st')
        | SendOk r \<Rightarrow>
            Some (Continue, st'\<lparr>bytes_out := bytes_out st' + of_nat r, sent := sent st' @ [(from, msg)]\<rparr>))"
  using assms
  by (auto simp add: announce_case_def Let_def split: option.split prod.split send_result.split)

lemma int32_id: "- (2 ^ 31) \<le> x \<Longrightarrow> x < 2 ^ 31 \<Longrightarrow> int32 x = x"
  by (simp add: int32_def)

lemma fold_scrape_slot:
  "fold (scrape_slot cfg table buffer) [0..<n] d i =
     (if i < n then
        (case table (scrape_hash buffer i) of
           Some s \<Rightarrow>
             (case swarm_scrape cfg s of
                (sd, dc, dl) \<Rightarrow> \<lparr> seeds = htonl (host_order cfg) sd,
                                  download_count = htonl (host_order cfg) dc,
                                  downloaders = htonl (host_order cfg) dl \<rparr>)
         | None \<Rightarrow> d i)
      else d i)"
proof (induction n)
  case 0
  then show ?case by simp
next
  case (Suc n)
  then show ?case
    by (auto simp add: scrape_slot_def less_Suc_eq split: option.split prod.split)
qed

lemma length_scrape_data_bytes: "length (scrape_data_bytes h d) = 12"
  by (simp add: scrape_data_bytes_def length_store)

lemma length_concat_chunks:
  "\<forall>j<n. length (f j) = c \<Longrightarrow> length (concat (map f [0..<n])) = c * n"
  by (induction n) simp_all

lemma chunk_of_concat:
  assumes "\<forall>j<n. length (f j) = c" and "i < n"
  shows "take c (drop (c * i) (concat (map f [0..<n]))) = f i"
  using assms
proof (induction n)
  case 0
  then show ?case by simp
next
  case (Suc n)
  have len: "length (concat (map f [0..<n])) = c * n"
    using Suc.prems(1) by (simp add: length_concat_chunks)
  show ?case
  proof (cases "i < n")
    case True
    then have "c * Suc i \<le> c * n"
      by (intro mult_le_mono2) simp
    then have "c * i + c \<le> c * n"
      by simp
    with Suc True len show ?thesis
      by simp
  next
    case False
    with Suc.prems(2) have "i = n" by simp
    with Suc.prems(1) len show ?thesis by simp
  qed
qed

lemma scrape_entry_of_reply:
  assumes "16 \<le> length buffer" and "\<forall>j<n. length (entry j) = 12" and "i < n"
  shows "field (8 + 12 * i) 12 ([0, 0, 0, 2] @ field 12 4 buffer @ concat (map entry [0..<n])) = entry i"
proof -
  have "12 + 4 \<le> length buffer"
    using assms(1) by simp
  then have "length (field 12 4 buffer) = 4"
    by (rule length_field)
  then have "length ([0, 0, 0, 2] @ field 12 4 buffer) = 8"
    by simp
  then have "field (8 + 12 * i) 12 (([0, 0, 0, 2] @ field 12 4 buffer) @ concat (map entry [0..<n])) =
      field (12 * i) 12 (concat (map entry [0..<n]))"
    by (rule field_after_prefix)
  also have "\<dots> = entry i"
    unfolding field_def using assms(2,3) by (rule chunk_of_concat)
  finally show ?thesis
    by (simp only: append_assoc)
qed

lemma scrape_reply_bytes:
  "udp_scrape_response (host_order cfg) (htonl (host_order cfg) action_scrape) tid
     (fold (scrape_slot cfg table buffer) [0..<n] d) n =
   [0, 0, 0, 2] @ store (host_order cfg) tid @
   concat (map (\<lambda>i. case table (scrape_hash buffer i) of
                        Some s \<Rightarrow>
                          (case swarm_scrape cfg s of
                             (sd, dc, dl) \<Rightarrow> store BigEndian sd @ store BigEndian dc @ store BigEndian dl)
                      | None \<Rightarrow> scrape_data_bytes (host_order cfg) (d i)) [0..<n])"
proof -
  have two: "store BigEndian action_scrape = [0, 0, 0, 2]"
    by (simp add: action_scrape_def store_def le_bytes_numeral)
  have "map (\<lambda>i. scrape_data_bytes (host_order cfg) (fold (scrape_slot cfg table buffer) [0..<n] d i)) [0..<n] =
      map (\<lambda>i. case table (scrape_hash buffer i) of
                   Some s \<Rightarrow>
                     (case swarm_scrape cfg s of
                        (sd, dc, dl) \<Rightarrow> store BigEndian sd @ store BigEndian dc @ store BigEndian dl)
                 | None \<Rightarrow> scrape_data_bytes (host_order cfg) (d i)) [0..<n]"
    by (rule map_cong)
      (auto simp add: fold_scrape_slot scrape_data_bytes_def store_htonl split: option.split prod.split)
  then show ?thesis
    unfolding udp_scrape_response_def by (simp only: store_htonl two)
qed

lemma length_scrape_entries:
  "length (concat (map (\<lambda>i. case table (scrape_hash buffer i) of
                        Some s \<Rightarrow>
                          (case swarm_scrape cfg s of
                             (sd, dc, dl) \<Rightarrow> store BigEndian sd @ store BigEndian dc @ store BigEndian (dl :: uint32_t))
                      | None \<Rightarrow> scrape_data_bytes h (d i)) [0..<n])) = 12 * n"
  by (rule length_concat_chunks)
    (auto simp add: length_store length_scrape_data_bytes split: option.split prod.split)

lemma scrape_turn:
  assumes "recvfrom_result w = Received from buffer"
    and "36 \<le> length buffer"
    and "load BigEndian (field 8 4 buffer) = action_scrape"
    and "verify_connection_id cfg (connection_id (as_udp_announce_message (host_order cfg) buffer)) from"
  shows "tracker_thread_turn cfg w st =
    (let n = min ((length buffer - 16) div 20) (max_scrape_responses cfg);
         entry = (\<lambda>i. case swarms st (scrape_hash buffer i) of
                         Some s \<Rightarrow>
                           (case swarm_scrape cfg s of
                              (sd, dc, dl) \<Rightarrow> store BigEndian sd @ store BigEndian dc @ store BigEndian dl)
                       | None \<Rightarrow> scrape_data_bytes (host_order cfg) (resp_before w i));
         reply = [0, 0, 0, 2] @ field 12 4 buffer @ concat (map entry [0..<n])
     in case respond (send_results w) 0 reply from
               (st\<lparr>bytes_in := bytes_in st + of_nat (length buffer), scrapes := scrapes st + 1\<rparr>) of
          None \<Rightarrow> None
        | Some (failed, st') \<Rightarrow> Some (if failed then Exit else Continue, st'))"
proof -
  let ?h = "host_order cfg"
  let ?hdr = "as_udp_announce_message ?h buffer"
  let ?n = "min ((length buffer - 16) div 20) (max_scrape_responses cfg)"
  let ?entries = "concat (map (\<lambda>i. case swarms st (scrape_hash buffer i) of
                         Some s \<Rightarrow>
                           (case swarm_scrape cfg s of
                              (sd, dc, dl) \<Rightarrow> store BigEndian sd @ store BigEndian dc @ store BigEndian dl)
                       | None \<Rightarrow> scrape_data_bytes ?h (resp_before w i)) [0..<?n])"
  let ?reply = "[0, 0, 0, 2] @ field 12 4 buffer @ ?entries"
  have len: "16 \<le> length buffer"
    using assms(2) by simp
  have resp: "udp_scrape_response ?h (htonl ?h action_scrape) (transaction_id ?hdr)
      (fold (scrape_slot cfg (swarms st) buffer) [0..<?n] (resp_before w)) ?n = ?reply"
    by (simp only: scrape_reply_bytes header_fields(3) [OF len])
  have "length ?reply = 8 + ?n * 12"
    using len by (simp add: length_scrape_entries length_field del: upt_Suc)
  then have whole: "take (8 + ?n * 12) ?reply = ?reply"
    by (simp only: take_all order_refl)
  have "tracker_thread_turn cfg w st =
      scrape_case cfg w from buffer ?hdr (st\<lparr>bytes_in := bytes_in st + of_nat (length buffer)\<rparr>)"
    using assms(3)
    by (simp add: turn_dispatch [OF assms(1) len] Let_def
        action_connect_def action_announce_def action_scrape_def)
  also have "\<dots> = (case respond (send_results w) 0 (take (8 + ?n * 12) ?reply) from
               (st\<lparr>bytes_in := bytes_in st + of_nat (length buffer), scrapes := scrapes st + 1\<rparr>) of
          None \<Rightarrow> None
        | Some (failed, st') \<Rightarrow> Some (if failed then Exit else Continue, st'))"
    using assms(2,4) by (simp add: scrape_case_def Let_def resp del: append.simps upt_Suc)
  finally show ?thesis
    by (simp only: whole Let_def)
qed

lemma scrape_turn_bytes_in:
  assumes "recvfrom_result w = Received from buffer"
    and "36 \<le> length buffer"
    and "load BigEndian (field 8 4 buffer) = action_scrape"
    and "verify_connection_id cfg (connection_id (as_udp_announce_message (host_order cfg) buffer)) from"
  shows "map_option (\<lambda>(out, st'). (out, st'\<lparr>bytes_in := 0\<rparr>)) (tracker_thread_turn cfg w st) =
    (let n = min ((length buffer - 16) div 20) (max_scrape_responses cfg);
         entry = (\<lambda>i. case swarms st (scrape_hash buffer i) of
                         Some s \<Rightarrow>
                           (case swarm_scrape cfg s of
                              (sd, dc, dl) \<Rightarrow> store BigEndian sd @ store BigEndian dc @ store BigEndian dl)
                       | None \<Rightarrow> scrape_data_bytes (host_order cfg) (resp_before w i));
         reply = [0, 0, 0, 2] @ field 12 4 buffer @ concat (map entry [0..<n])
     in map_option (\<lambda>(failed, st'). (if failed then Exit else Continue, st'\<lparr>bytes_in := 0\<rparr>))
          (respond (send_results w) 0 reply from (st\<lparr>scrapes := scrapes st + 1\<rparr>)))"
proof -
  have swap: "st\<lparr>bytes_in := x, scrapes := scrapes st + 1\<rparr> = st\<lparr>scrapes := scrapes st + 1\<rparr>\<lparr>bytes_in := x\<rparr>" for x
    by simp
  show ?thesis
    unfolding scrape_turn [OF assms] Let_def swap respond_bytes_in
    by (cases "respond (send_results w) 0
          ([0, 0, 0, 2] @ field 12 4 buffer @
           concat (map (\<lambda>i. case swarms st (scrape_hash buffer i) of
                         Some s \<Rightarrow>
                           (case swarm_scrape cfg s of
                              (sd, dc, dl) \<Rightarrow> store BigEndian sd @ store BigEndian dc @ store BigEndian dl)
                       | None \<Rightarrow> scrape_data_bytes (host_order cfg) (resp_before w i))
                   [0..<min ((length buffer - 16) div 20) (max_scrape_responses cfg)]))
          from (st\<lparr>scrapes := scrapes st + 1\<rparr>)")
      (auto simp del: append.simps upt_Suc)
qed

lemma short_scrape_is_dropped:
  assumes "recvfrom_result w = Received from buffer"
    and "16 \<le> length buffer" and "length buffer < 36"
    and "load BigEndian (field 8 4 buffer) = action_scrape"
    and "verify_connection_id cfg (connection_id (as_udp_announce_message (host_order cfg) buffer)) from"
  shows "tracker_thread_turn cfg w st =
           Some (Continue, st\<lparr>errors := errors st + 1, bytes_in := bytes_in st + of_nat (length buffer)\<rparr>)"
  using assms(3,4,5)
  by (simp add: turn_dispatch [OF assms(1,2)] Let_def scrape_case_def
      action_connect_def action_announce_def action_scrape_def)

lemma scrape_turn_sent:
  assumes "recvfrom_result w = Received from buffer"
    and "36 \<le> length buffer"
    and "load BigEndian (field 8 4 buffer) = action_scrape"
    and "verify_connection_id cfg (connection_id (as_udp_announce_message (host_order cfg) buffer)) from"
    and "\<forall>j<k. send_results w j = SendFailed EINTR"
    and "send_results w k = SendOk r"
  shows "tracker_thread_turn cfg w st =
           Some (Continue, st\<lparr>scrapes := scrapes st + 1,
                               bytes_out := bytes_out st + of_nat r,
                               bytes_in := bytes_in st + of_nat (length buffer),
                               sent := sent st @
                                 [(from, [0, 0, 0, 2] @ field 12 4 buffer @
                                    concat (map (\<lambda>i. case swarms st (scrape_hash buffer i) of
                                                        Some s \<Rightarrow>
                                                          (case swarm_scrape cfg s of
                                                             (sd, dc, dl) \<Rightarrow>
                                                               store BigEndian sd @ store BigEndian dc @ store BigEndian dl)
                                                      | None \<Rightarrow> scrape_data_bytes (host_order cfg) (resp_before w i))
                                             [0..<min ((length buffer - 16) div 20) (max_scrape_responses cfg)]))]\<rparr>)"
proof -
  have sys: "\<forall>j<k. send_results w (0 + j) = SendFailed EINTR" "send_results w (0 + k) = SendOk r"
    using assms(5,6) by simp_all
  show ?thesis
    by (simp add: scrape_turn [OF assms(1-4)] Let_def respond_sent [OF sys] del: append.simps upt_Suc)
qed

lemma length_scrape_reply:
  assumes "16 \<le> length buffer"
  shows "length ([0, 0, 0, 2] @ field 12 4 buffer @
           concat (map (\<lambda>i. case table (scrape_hash buffer i) of
                               Some s \<Rightarrow>
                                 (case swarm_scrape cfg s of
                                    (sd, dc, dl) \<Rightarrow>
                                      store BigEndian sd @ store BigEndian dc @ store BigEndian (dl :: uint32_t))
                             | None \<Rightarrow> scrape_data_bytes h (d i)) [0..<n])) = 8 + 12 * n"
proof -
  have "12 + 4 \<le> length buffer"
    using assms by simp
  then have "length (field 12 4 buffer) = 4"
    by (rule length_field)
  then show ?thesis
    by (simp add: length_scrape_entries del: upt_Suc)
qed

lemma scrape_trailing_bytes_ignored:
  assumes "recvfrom_result w = Received from buffer"
    and "36 \<le> length buffer"
    and "load BigEndian (field 8 4 buffer) = action_scrape"
    and "verify_connection_id cfg (connection_id (as_udp_announce_message (host_order cfg) buffer)) from"
  shows "let whole = 16 + 20 * ((length buffer - 16) div 20);
             w' = w\<lparr>recvfrom_result := Received from (take whole buffer)\<rparr>
         in map_option (\<lambda>(out, st'). (out, st'\<lparr>bytes_in := 0\<rparr>)) (tracker_thread_turn cfg w' st) =
            map_option (\<lambda>(out, st'). (out, st'\<lparr>bytes_in := 0\<rparr>)) (tracker_thread_turn cfg w st)"
proof -
  note big = assms(2)
  define k where "k = (length buffer - 16) div 20"
  define whole where "whole = 16 + 20 * k"
  define buffer' where "buffer' = take whole buffer"
  define w' where "w' = w\<lparr>recvfrom_result := Received from buffer'\<rparr>"
  have k: "1 \<le> k"
    using big unfolding k_def by (simp add: Suc_le_eq div_greater_zero_iff)
  have "20 * k \<le> length buffer - 16"
    unfolding k_def by simp
  then have fits: "whole \<le> length buffer"
    using big unfolding whole_def by simp
  then have len': "length buffer' = whole"
    unfolding buffer'_def by simp
  have big': "36 \<le> length buffer'"
    using k unfolding len' whole_def by simp
  have k': "(length buffer' - 16) div 20 = k"
    unfolding len' whole_def by simp
  have hd: "field off n buffer' = field off n buffer" if "off + n \<le> 16" for off n
    unfolding buffer'_def using that by (intro field_take) (simp add: whole_def)
  have rx: "recvfrom_result w' = Received from buffer'"
    by (simp add: w'_def)
  have act: "load BigEndian (field 8 4 buffer') = action_scrape"
    using assms(3) by (simp add: hd)
  have "connection_id (as_udp_announce_message (host_order cfg) buffer') =
      connection_id (as_udp_announce_message (host_order cfg) buffer)"
    by (simp add: as_udp_announce_message_def hd)
  then have tok: "verify_connection_id cfg
      (connection_id (as_udp_announce_message (host_order cfg) buffer')) from"
    using assms(4) by simp
  have hashes: "scrape_hash buffer' i = scrape_hash buffer i"
    if "i < min k (max_scrape_responses cfg)" for i
  proof -
    from that have "Suc i \<le> k" by simp
    then have "20 * Suc i \<le> 20 * k" by (rule mult_le_mono2)
    then have "16 + 20 * i + 20 \<le> whole"
      unfolding whole_def by simp
    then show ?thesis
      unfolding scrape_hash_def buffer'_def by (rule field_take)
  qed
  have entries: "map (\<lambda>i. case swarms st (scrape_hash buffer' i) of
                         Some s \<Rightarrow>
                           (case swarm_scrape cfg s of
                              (sd, dc, dl) \<Rightarrow> store BigEndian sd @ store BigEndian dc @ store BigEndian dl)
                       | None \<Rightarrow> scrape_data_bytes (host_order cfg) (resp_before w i))
                  [0..<min k (max_scrape_responses cfg)] =
      map (\<lambda>i. case swarms st (scrape_hash buffer i) of
                         Some s \<Rightarrow>
                           (case swarm_scrape cfg s of
                              (sd, dc, dl) \<Rightarrow> store BigEndian sd @ store BigEndian dc @ store BigEndian dl)
                       | None \<Rightarrow> scrape_data_bytes (host_order cfg) (resp_before w i))
                  [0..<min k (max_scrape_responses cfg)]"
    by (rule map_cong) (simp_all add: hashes)
  have io: "send_results w' = send_results w" "resp_before w' = resp_before w"
    by (simp_all add: w'_def)
  have "map_option (\<lambda>(out, st'). (out, st'\<lparr>bytes_in := 0\<rparr>)) (tracker_thread_turn cfg w' st) =
      map_option (\<lambda>(out, st'). (out, st'\<lparr>bytes_in := 0\<rparr>)) (tracker_thread_turn cfg w st)"
    unfolding scrape_turn_bytes_in [OF rx big' act tok]
      scrape_turn_bytes_in [OF assms(1) big assms(3,4)] Let_def k' io
    unfolding k_def [symmetric] entries hd [of 12 4, simplified] ..
  then show ?thesis
    unfolding Let_def w'_def buffer'_def whole_def k_def .
qed

lemma tracker_thread_stops:
  "tracker_thread_turn cfg w st = Some (Exit, st') \<Longrightarrow> tracker_thread cfg (w # ws) st = Some (Exit, st')"
  by simp

lemma tracker_thread_goes_on:
  "tracker_thread_turn cfg w st = Some (Continue, st') \<Longrightarrow>
   tracker_thread cfg (w # ws) st = tracker_thread cfg ws st'"
  by simp

section \<open>A configuration to run the model on\<close>

text \<open>
  The theorems below hold for every configuration. To run the model on concrete
  datagrams, \<open>toy_config\<close> fixes a little-endian host with glibc's \<open>RAND_MAX\<close>, a stand-in
  for the digest (the first 20 bytes of what was hashed, padded with \<open>0x5A\<close>) and a
  stand-in swarm that only keeps its three counters and returns the announcing peer's
  own address and port as the peer list.
\<close>

definition toy_announce :: "scrape_data \<Rightarrow> udp_announce_message \<Rightarrow> scrape_data \<times> byte list \<times> uint32_t \<times> uint32_t" where
  "toy_announce s hdr =
     (let s' = (if left hdr = 0 then s\<lparr>seeds := seeds s + 1\<rparr> else s\<lparr>downloaders := downloaders s + 1\<rparr>)
      in (s', store LittleEndian (ip hdr) @ store LittleEndian (port hdr), downloaders s', seeds s'))"

definition toy_config :: "(byte list, scrape_data) config" where
  "toy_config =
     \<lparr> host_order = LittleEndian,
       RAND_MAX = 2147483647,
       max_scrape_responses = 74,
       allow_alternate_ip = False,
       secret = [],
       SHA1_Update = (\<lambda>ctx bs. ctx @ bs),
       SHA1_Final = (\<lambda>ctx. load BigEndian (take 20 (ctx @ replicate 20 0x5A))),
       new_swarm = \<lparr> seeds = 0, download_count = 0, downloaders = 0 \<rparr>,
       swarm_announce = toy_announce,
       swarm_scrape = (\<lambda>s. (seeds s, download_count s, downloaders s)) \<rparr>"

text \<open>A client at 10.0.0.1, port 6881 (both in network byte order, read on the
  little-endian host).\<close>

definition toy_client :: sockaddr_in where
  "toy_client = \<lparr> sin_addr = 0x0100000A, sin_port = 0xE11A \<rparr>"

text \<open>The state of a freshly started tracker; a turn in which \<open>buffer\<close> arrives from the
  client, \<^verbatim>\<open>rand()\<close> would return \<open>2^27\<close>, the stack holds \<open>0xDEADBEEF\<close> where the scrape
  response is placed and the sends go as \<open>sys\<close> says; two courses the sends can take;
  and a connect request with transaction id \<open>0xDEADBEEF\<close>.\<close>

definition toy_tracker :: "scrape_data tracker" where
  "toy_tracker =
     \<lparr> connects = 0, announces = 0, scrapes = 0, errors = 0, bytes_out = 0, bytes_in = 0,
       swarms = Map.empty, sent = [] \<rparr>"

definition toy_io :: "byte list \<Rightarrow> (nat \<Rightarrow> send_result) \<Rightarrow> io" where
  "toy_io buffer sys =
     \<lparr> recvfrom_result = Received toy_client buffer,
       rand_result = 134217728,
       resp_before = (\<lambda>i. \<lparr> seeds = 0xDEADBEEF, download_count = 0xDEADBEEF, downloaders = 0xDEADBEEF \<rparr>),
       send_results = sys \<rparr>"

definition interrupted_once :: "nat \<Rightarrow> nat \<Rightarrow> send_result" where
  "interrupted_once r k = (if k = 0 then SendFailed EINTR else SendOk r)"

definition all_sent :: "nat \<Rightarrow> nat \<Rightarrow> send_result" where
  "all_sent r k = SendOk r"

definition toy_connect :: "byte list" where
  "toy_connect = [0, 0, 4, 0x17, 0x27, 0x10, 0x19, 0x80, 0, 0, 0, 0, 0xDE, 0xAD, 0xBE, 0xEF]"

text \<open>The client's token under \<open>toy_config\<close>, and an announce request of 98 bytes carrying
  the connection id \<open>cid\<close>: info-hash \<open>00..01\<close>, \<open>left = 100\<close>, \<open>event = 2\<close> (started),
  \<open>ip = 1.2.3.4\<close>, \<open>num_want = -1\<close>, \<open>port = 6881\<close>.\<close>

definition toy_token_bytes :: "byte list" where
  "toy_token_bytes = [10, 0, 0, 1, 0x1A, 0xE1, 0x5A, 0x5A]"

definition toy_announce_request :: "byte list \<Rightarrow> byte list" where
  "toy_announce_request cid =
     cid @ [0, 0, 0, 1, 0xDE, 0xAD, 0xBE, 0xEF,
            0, 0, 0, 0, 0, 0, 0, 0, 0, 0, 0, 0, 0, 0, 0, 0, 0, 0, 0, 1,
            0x2D, 0x55, 0x54, 0x2D, 0, 0, 0, 0, 0, 0, 0, 0, 0, 0, 0, 0, 0, 0, 0, 7,
            0, 0, 0, 0, 0, 0, 0, 0,
            0, 0, 0, 0, 0, 0, 0, 100,
            0, 0, 0, 0, 0, 0, 0, 0,
            0, 0, 0, 2,
            1, 2, 3, 4,
            0, 0, 0, 9,
            0xFF, 0xFF, 0xFF, 0xFF,
            0x1A, 0xE1]"

text \<open>A scrape request of 61 bytes from the same client: the info-hashes \<open>00..01\<close> and
  \<open>00..02\<close> and five trailing bytes; and a tracker whose table holds a swarm for the first
  hash only, with one seed and one completed download.\<close>

definition toy_scrape_request :: "byte list" where
  "toy_scrape_request =
     [10, 0, 0, 1, 0x1A, 0xE1, 0x5A, 0x5A, 0, 0, 0, 2, 0xDE, 0xAD, 0xBE, 0xEF,
      0, 0, 0, 0, 0, 0, 0, 0, 0, 0, 0, 0, 0, 0, 0, 0, 0, 0, 0, 1,
      0, 0, 0, 0, 0, 0, 0, 0, 0, 0, 0, 0, 0, 0, 0, 0, 0, 0, 0, 2,
      1, 2, 3, 4, 5]"

definition toy_seeded :: "scrape_data tracker" where
  "toy_seeded =
     toy_tracker\<lparr>swarms := [[0, 0, 0, 0, 0, 0, 0, 0, 0, 0, 0, 0, 0, 0, 0, 0, 0, 0, 0, 1] \<mapsto>
                              \<lparr> seeds = 1, download_count = 1, downloaders = 0 \<rparr>]\<rparr>"

lemma toy_digest:
  "take 8 (gen_secret_digest toy_config toy_client) = [10, 0, 0, 1, 0x1A, 0xE1, 0x5A, 0x5A]"
proof -
  have img: "store LittleEndian (0x0100000A :: uint32_t) = [10, 0, 0, 1]"
    "store LittleEndian (0xE11A :: uint16_t) = [0x1A, 0xE1]"
    by (simp_all add: store_def le_bytes_numeral)
  have "store BigEndian (load BigEndian (take 20 ([10, 0, 0, 1, 0x1A, 0xE1] @ replicate 20 0x5A)) :: 160 word)
      = take 20 ([10, 0, 0, 1, 0x1A, 0xE1] @ replicate 20 (0x5A :: byte))"
    by (rule store_load) simp
  then show ?thesis
    by (simp add: gen_secret_digest_def toy_config_def toy_client_def img numeral_eq_Suc [of "Num.Bit0 Num.One"])
qed

lemma toy_token:
  "store LittleEndian (generate_connection_id toy_config toy_client) = [10, 0, 0, 1, 0x1A, 0xE1, 0x5A, 0x5A]"
  using connection_id_image [of toy_config toy_client] by (simp add: toy_digest) (simp add: toy_config_def)

lemma toy_config_simps:
  "host_order toy_config = LittleEndian"
  "allow_alternate_ip toy_config = False"
  "new_swarm toy_config = \<lparr> seeds = 0, download_count = 0, downloaders = 0 \<rparr>"
  "swarm_announce toy_config = toy_announce"
  "swarm_scrape toy_config = (\<lambda>s. (seeds s, download_count s, downloaders s))"
  "max_scrape_responses toy_config = 74"
  "RAND_MAX toy_config = 2147483647"
  by (simp_all add: toy_config_def)

lemma toy_announce_request_facts:
  "length (toy_announce_request toy_token_bytes) = 98"
  "load BigEndian (field 8 4 (toy_announce_request toy_token_bytes)) = action_announce"
  "verify_connection_id toy_config
     (connection_id (as_udp_announce_message (host_order toy_config) (toy_announce_request toy_token_bytes)))
     toy_client"
proof -
  let ?buffer = "toy_announce_request toy_token_bytes"
  show len: "length ?buffer = 98"
    by (simp add: toy_announce_request_def toy_token_bytes_def)
  show "load BigEndian (field 8 4 ?buffer) = action_announce"
    by (simp add: toy_announce_request_def toy_token_bytes_def field_def load_def action_announce_def)
  have "store LittleEndian (connection_id (as_udp_announce_message LittleEndian ?buffer)) = toy_token_bytes"
    using header_fields(4) [of ?buffer LittleEndian] len
    by (simp add: toy_announce_request_def toy_token_bytes_def field_def)
  then show "verify_connection_id toy_config
      (connection_id (as_udp_announce_message (host_order toy_config) ?buffer)) toy_client"
    by (simp add: verify_connection_id_def toy_digest toy_token_bytes_def) (simp add: toy_config_def)
qed

lemma toy_announce_hdr:
  "ip (as_udp_announce_message LittleEndian (toy_announce_request toy_token_bytes)) = 0x04030201"
  "left (as_udp_announce_message LittleEndian (toy_announce_request toy_token_bytes)) = 0x6400000000000000"
  "port (as_udp_announce_message LittleEndian (toy_announce_request toy_token_bytes)) = 0xE11A"
  "hash (as_udp_announce_message LittleEndian (toy_announce_request toy_token_bytes)) =
     [0, 0, 0, 0, 0, 0, 0, 0, 0, 0, 0, 0, 0, 0, 0, 0, 0, 0, 0, 1]"
  "field 12 4 (toy_announce_request toy_token_bytes) = [0xDE, 0xAD, 0xBE, 0xEF]"
  by (simp_all add: as_udp_announce_message_def toy_announce_request_def toy_token_bytes_def
      field_def load_def)

lemma toy_announce_new:
  "toy_announce \<lparr> seeds = 0, download_count = 0, downloaders = 0 \<rparr>
     (as_udp_announce_message LittleEndian (toy_announce_request toy_token_bytes)\<lparr>ip := 0x0100000A\<rparr>) =
   (\<lparr> seeds = 0, download_count = 0, downloaders = 1 \<rparr>, [10, 0, 0, 1, 0x1A, 0xE1], 1, 0)"
  by (simp add: toy_announce_def toy_announce_hdr Let_def store_def le_bytes_numeral)

lemma toy_scrape_request_facts:
  "length toy_scrape_request = 61"
  "load BigEndian (field 8 4 toy_scrape_request) = action_scrape"
  "verify_connection_id toy_config
     (connection_id (as_udp_announce_message (host_order toy_config) toy_scrape_request)) toy_client"
  "load BigEndian (field 8 4 (take 35 toy_scrape_request)) = action_scrape"
  "verify_connection_id toy_config
     (connection_id (as_udp_announce_message (host_order toy_config) (take 35 toy_scrape_request))) toy_client"
proof -
  show len: "length toy_scrape_request = 61"
    by (simp add: toy_scrape_request_def)
  show "load BigEndian (field 8 4 toy_scrape_request) = action_scrape"
    "load BigEndian (field 8 4 (take 35 toy_scrape_request)) = action_scrape"
    by (simp_all add: toy_scrape_request_def field_def load_def action_scrape_def)
  have "store LittleEndian (connection_id (as_udp_announce_message LittleEndian toy_scrape_request)) = toy_token_bytes"
    using header_fields(4) [of toy_scrape_request LittleEndian] len
    by (simp add: toy_scrape_request_def toy_token_bytes_def field_def)
  then show "verify_connection_id toy_config
      (connection_id (as_udp_announce_message (host_order toy_config) toy_scrape_request)) toy_client"
    by (simp add: verify_connection_id_def toy_digest toy_token_bytes_def) (simp add: toy_config_def)
  have "store LittleEndian (connection_id (as_udp_announce_message LittleEndian (take 35 toy_scrape_request))) = toy_token_bytes"
    using header_fields(4) [of "take 35 toy_scrape_request" LittleEndian] len
    by (simp add: toy_scrape_request_def toy_token_bytes_def field_def)
  then show "verify_connection_id toy_config
      (connection_id (as_udp_announce_message (host_order toy_config) (take 35 toy_scrape_request))) toy_client"
    by (simp add: verify_connection_id_def toy_digest toy_token_bytes_def) (simp add: toy_config_def)
qed

lemma toy_scrape_hashes:
  "scrape_hash toy_scrape_request 0 = [0, 0, 0, 0, 0, 0, 0, 0, 0, 0, 0, 0, 0, 0, 0, 0, 0, 0, 0, 1]"
  "scrape_hash toy_scrape_request (Suc 0) = [0, 0, 0, 0, 0, 0, 0, 0, 0, 0, 0, 0, 0, 0, 0, 0, 0, 0, 0, 2]"
  "field 12 4 toy_scrape_request = [0xDE, 0xAD, 0xBE, 0xEF]"
  by (simp_all add: scrape_hash_def field_def toy_scrape_request_def)

lemma toy_images:
  "store BigEndian (0 :: uint32_t) = [0, 0, 0, 0]"
  "store BigEndian (1 :: uint32_t) = [0, 0, 0, 1]"
  "store LittleEndian (0xDEADBEEF :: uint32_t) = [0xEF, 0xBE, 0xAD, 0xDE]"
  by (simp_all add: store_def le_bytes_numeral)

lemma toy_scrape_header_facts:
  "length (take 16 toy_scrape_request) = 16"
  "load BigEndian (field 8 4 (take 16 toy_scrape_request)) = action_scrape"
  "verify_connection_id toy_config
     (connection_id (as_udp_announce_message (host_order toy_config) (take 16 toy_scrape_request))) toy_client"
proof -
  show len: "length (take 16 toy_scrape_request) = 16"
    by (simp add: toy_scrape_request_def)
  show "load BigEndian (field 8 4 (take 16 toy_scrape_request)) = action_scrape"
    by (simp add: toy_scrape_request_def field_def load_def action_scrape_def)
  have "store LittleEndian (connection_id (as_udp_announce_message LittleEndian (take 16 toy_scrape_request))) =
      toy_token_bytes"
    using header_fields(4) [of "take 16 toy_scrape_request" LittleEndian] len
    by (simp add: toy_scrape_request_def toy_token_bytes_def field_def)
  then show "verify_connection_id toy_config
      (connection_id (as_udp_announce_message (host_order toy_config) (take 16 toy_scrape_request))) toy_client"
    by (simp add: verify_connection_id_def toy_digest toy_token_bytes_def) (simp add: toy_config_def)
qed

section \<open>Connection ids verify\<close>

text \<open>
  Claim C1. For every client endpoint \<open>e\<close>, the token issued for \<open>e\<close> verifies against \<open>e\<close>:
  \<open>generate_connection_id\<close> hashes the secret state, the 4 address bytes and the 2 port
  bytes and returns the first 8 digest bytes as a 64-bit integer;
  \<open>verify_connection_id\<close> compares the bytes of the token with those same 8 bytes.
\<close>

theorem connection_id_verifies:
  "verify_connection_id cfg (generate_connection_id cfg e) e"
  by (simp add: verify_connection_id_def connection_id_image)

theorem connection_id_verifies_witness:
  "verify_connection_id toy_config (generate_connection_id toy_config toy_client) toy_client
   \<and> store LittleEndian (generate_connection_id toy_config toy_client) = [10, 0, 0, 1, 0x1A, 0xE1, 0x5A, 0x5A]"
  using connection_id_verifies [of toy_config toy_client]
  by (simp add: verify_connection_id_def toy_digest) (simp add: toy_config_def)

section \<open>Connect\<close>

text \<open>
  Claim C2. A connect datagram of at least 16 bytes whose \<open>connection_id\<close> field is the
  magic value \<open>0x41727101980\<close> in big-endian is answered, once \<^verbatim>\<open>sendto\<close> succeeds (here
  after \<open>n\<close> interrupted calls), with exactly 16 bytes: action 0, the four bytes of the
  request's transaction id as they arrived, and a token \<open>T\<close> that
  \<open>verify_connection_id\<close> accepts for the sender. \<open>connects\<close> goes up by one.
\<close>

theorem connect_is_answered:
  assumes "recvfrom_result w = Received from buffer"
    and "16 \<le> length buffer"
    and "load BigEndian (field 8 4 buffer) = action_connect"
    and "load BigEndian (field 0 8 buffer) = (0x41727101980 :: uint64_t)"
    and "\<forall>j<n. send_results w j = SendFailed EINTR"
    and "send_results w n = SendOk r"
  shows "let T = generate_connection_id cfg from;
             reply = [0, 0, 0, 0] @ field 12 4 buffer @ store (host_order cfg) T
         in tracker_thread_turn cfg w st =
              Some (Continue, st\<lparr>connects := connects st + 1,
                                  bytes_out := bytes_out st + of_nat r,
                                  bytes_in := bytes_in st + of_nat (length buffer),
                                  sent := sent st @ [(from, reply)]\<rparr>)
            \<and> length reply = 16
            \<and> verify_connection_id cfg T from"
proof -
  let ?h = "host_order cfg"
  let ?hdr = "as_udp_announce_message ?h buffer"
  let ?T = "generate_connection_id cfg from"
  let ?reply = "[0, 0, 0, 0] @ field 12 4 buffer @ store ?h ?T"
  have zero: "store BigEndian (0 :: uint32_t) = [0, 0, 0, 0]"
    by (simp add: store_def le_bytes_numeral)
  have resp: "udp_connect_response ?h (htonl ?h action_connect) (transaction_id ?hdr) ?T = ?reply"
    using assms(2) by (simp add: udp_connect_response_def store_htonl header_fields action_connect_def zero)
  have len: "length ?reply = 16"
    using assms(2) by (simp add: length_field length_store)
  have sys: "\<forall>j<n. send_results w (0 + j) = SendFailed EINTR" "send_results w (0 + n) = SendOk r"
    using assms(5,6) by simp_all
  have "connect_case cfg w from ?hdr (st\<lparr>bytes_in := bytes_in st + of_nat (length buffer)\<rparr>) =
      Some (Continue, st\<lparr>connects := connects st + 1,
                          bytes_out := bytes_out st + of_nat r,
                          bytes_in := bytes_in st + of_nat (length buffer),
                          sent := sent st @ [(from, ?reply)]\<rparr>)"
    using assms(2,4) len
    by (simp add: connect_case_def header_fields resp respond_sent [OF sys] del: append.simps)
  then have "tracker_thread_turn cfg w st =
      Some (Continue, st\<lparr>connects := connects st + 1,
                          bytes_out := bytes_out st + of_nat r,
                          bytes_in := bytes_in st + of_nat (length buffer),
                          sent := sent st @ [(from, ?reply)]\<rparr>)"
    using assms(1,2,3) by (simp add: tracker_thread_turn_def header_fields Let_def)
  moreover have "verify_connection_id cfg ?T from"
    by (simp add: verify_connection_id_def connection_id_image)
  ultimately show ?thesis
    using len by (simp add: Let_def del: append.simps)
qed

theorem connect_is_answered_witness:
  "tracker_thread_turn toy_config (toy_io toy_connect (interrupted_once 16)) toy_tracker =
     Some (Continue, toy_tracker\<lparr>connects := 1, bytes_out := 16, bytes_in := 16,
        sent := [(toy_client, [0, 0, 0, 0, 0xDE, 0xAD, 0xBE, 0xEF, 10, 0, 0, 1, 0x1A, 0xE1, 0x5A, 0x5A])]\<rparr>)"
proof -
  have tok: "store LittleEndian (generate_connection_id toy_config toy_client) = [10, 0, 0, 1, 0x1A, 0xE1, 0x5A, 0x5A]"
    using toy_token by simp
  have h: "host_order toy_config = LittleEndian"
    by (simp add: toy_config_def)
  show ?thesis
    using connect_is_answered [of "toy_io toy_connect (interrupted_once 16)" toy_client toy_connect 1 16
        toy_config toy_tracker]
    by (simp add: toy_io_def interrupted_once_def toy_connect_def field_def load_def action_connect_def
        Let_def tok h toy_tracker_def)
qed

section \<open>Requests that fail authentication\<close>

text \<open>
  Claim C6. A connect datagram whose \<open>connection_id\<close> is not the magic value, and an
  announce or scrape datagram whose \<open>connection_id\<close> does not verify against the sender,
  get no response, and \<open>errors\<close> goes up by one. The swarm table plays no part: whatever
  table the state holds, it is left as it was and the rest of the result is the same.
\<close>

theorem unauthenticated_is_dropped:
  assumes "recvfrom_result w = Received from buffer"
    and "16 \<le> length buffer"
    and "(load BigEndian (field 8 4 buffer) = action_connect
            \<and> load BigEndian (field 0 8 buffer) \<noteq> (0x41727101980 :: uint64_t))
         \<or> ((load BigEndian (field 8 4 buffer) = action_announce
               \<or> load BigEndian (field 8 4 buffer) = action_scrape)
            \<and> \<not> verify_connection_id cfg
                  (connection_id (as_udp_announce_message (host_order cfg) buffer)) from)"
  shows "tracker_thread_turn cfg w (st\<lparr>swarms := table\<rparr>) =
           Some (Continue, st\<lparr>errors := errors st + 1,
                               bytes_in := bytes_in st + of_nat (length buffer),
                               swarms := table\<rparr>)"
  using assms(2,3)
  by (auto simp add: turn_dispatch [OF assms(1,2)] Let_def connect_case_def header_fields
      announce_case_unverified scrape_case_unverified
      action_connect_def action_announce_def action_scrape_def)

theorem unauthenticated_is_dropped_witness:
  "tracker_thread_turn toy_config (toy_io (toy_announce_request [0, 0, 0, 0, 0, 0, 0, 0]) (all_sent 26)) toy_tracker =
     Some (Continue, toy_tracker\<lparr>errors := 1, bytes_in := 98\<rparr>)"
proof -
  let ?buffer = "toy_announce_request [0, 0, 0, 0, 0, 0, 0, 0]"
  have len: "length ?buffer = 98"
    by (simp add: toy_announce_request_def)
  have act: "load BigEndian (field 8 4 ?buffer) = action_announce"
    by (simp add: toy_announce_request_def field_def load_def action_announce_def)
  have cid: "store LittleEndian (connection_id (as_udp_announce_message LittleEndian ?buffer)) = [0, 0, 0, 0, 0, 0, 0, 0]"
    using header_fields(4) [of ?buffer LittleEndian] len
    by (simp add: toy_announce_request_def field_def)
  have tok: "\<not> verify_connection_id toy_config
      (connection_id (as_udp_announce_message (host_order toy_config) ?buffer)) toy_client"
    using cid by (simp add: verify_connection_id_def toy_digest) (simp add: toy_config_def cid)
  show ?thesis
    using unauthenticated_is_dropped [where w = "toy_io ?buffer (all_sent 26)" and ?from = toy_client
        and buffer = ?buffer and cfg = toy_config and st = toy_tracker and table = Map.empty] len act tok
    by (simp add: toy_io_def) (simp add: toy_tracker_def)
qed

section \<open>Malformed datagrams\<close>

text \<open>
  Claim C5. A datagram shorter than 16 bytes is dropped without a response, but no
  counter other than \<open>bytes_in\<close> moves: lines 200 to 204 leave \<open>errors\<close> alone, unlike the
  two other rejections the claim lists, which \<open>short_announce_is_dropped\<close> and
  \<open>unknown_action_is_dropped\<close> show to count.
\<close>

theorem short_datagram_not_counted:
  assumes "recvfrom_result w = Received from buffer"
    and "length buffer < 16"
  shows "\<exists>st'. tracker_thread_turn cfg w st = Some (Continue, st')
           \<and> errors st' = errors st \<and> sent st' = sent st"
  using assms by (simp add: tracker_thread_turn_def Let_def)

theorem short_datagram_not_counted_witness:
  "\<exists>st'. tracker_thread_turn toy_config (toy_io [0, 0, 4, 0x17, 0x27, 0x10, 0x19, 0x80, 0, 0, 0, 0, 0xDE, 0xAD, 0xBE] (all_sent 16)) toy_tracker
          = Some (Continue, st')
        \<and> errors st' = 0 \<and> sent st' = []"
  using short_datagram_not_counted [where w = "toy_io [0, 0, 4, 0x17, 0x27, 0x10, 0x19, 0x80, 0, 0, 0, 0, 0xDE, 0xAD, 0xBE] (all_sent 16)"
      and ?from = toy_client and cfg = toy_config and st = toy_tracker]
  by (simp add: toy_io_def) (simp add: toy_tracker_def)

lemma short_announce_is_dropped:
  assumes "recvfrom_result w = Received from buffer"
    and "16 \<le> length buffer" and "length buffer < 98"
    and "load BigEndian (field 8 4 buffer) = action_announce"
    and "verify_connection_id cfg (connection_id (as_udp_announce_message (host_order cfg) buffer)) from"
  shows "tracker_thread_turn cfg w st =
           Some (Continue, st\<lparr>errors := errors st + 1, bytes_in := bytes_in st + of_nat (length buffer)\<rparr>)"
  using assms(3,4,5)
  by (simp add: turn_dispatch [OF assms(1,2)] Let_def announce_case_def
      action_connect_def action_announce_def)

lemma unknown_action_is_dropped:
  assumes "recvfrom_result w = Received from buffer"
    and "16 \<le> length buffer"
    and "load BigEndian (field 8 4 buffer) \<notin> {action_connect, action_announce, action_scrape}"
  shows "tracker_thread_turn cfg w st =
           Some (Continue, st\<lparr>errors := errors st + 1, bytes_in := bytes_in st + of_nat (length buffer)\<rparr>)"
  using assms(3)
  by (simp add: turn_dispatch [OF assms(1,2)] Let_def)

section \<open>Announce\<close>

text \<open>
  Claim C9. An announce that passes the checks is handed to the swarm with the \<open>ip\<close>
  field replaced by the sender's address, unless \<open>allow_alternate_ip\<close> is set and the
  field is nonzero, in which case the field stands. The swarm entry recorded under the
  info-hash and the peer bytes that follow the 20-byte header of the reply are those
  \<open>swarm_announce\<close> computes from that message.
\<close>

theorem announce_uses_source_ip:
  assumes "recvfrom_result w = Received from buffer"
    and "98 \<le> length buffer"
    and "load BigEndian (field 8 4 buffer) = action_announce"
    and "verify_connection_id cfg (connection_id (as_udp_announce_message (host_order cfg) buffer)) from"
  shows "let hdr = as_udp_announce_message (host_order cfg) buffer;
             hdr' = hdr\<lparr>ip := (if allow_alternate_ip cfg \<and> ip hdr \<noteq> 0 then ip hdr else sin_addr from)\<rparr>;
             s = (case swarms st (hash hdr) of Some s \<Rightarrow> s | None \<Rightarrow> new_swarm cfg);
             (s', peers, counts) = swarm_announce cfg s hdr'
         in \<exists>out st'. tracker_thread_turn cfg w st = Some (out, st')
              \<and> swarms st' = (swarms st)(hash hdr \<mapsto> s')
              \<and> (\<forall>r. send_results w 0 = SendOk r \<longrightarrow>
                    (\<exists>reply. sent st' = sent st @ [(from, reply)] \<and> drop 20 reply = peers))"
proof -
  have "16 \<le> length buffer"
    using assms(2) by simp
  from turn_dispatch [OF assms(1) this] assms(3)
  have "tracker_thread_turn cfg w st =
      announce_case cfg w from (length buffer) (as_udp_announce_message (host_order cfg) buffer)
        (st\<lparr>bytes_in := bytes_in st + of_nat (length buffer)\<rparr>)"
    by (simp add: Let_def action_connect_def action_announce_def)
  then show ?thesis
    by (auto simp add: announce_case_verified [OF assms(4,2)] Let_def udp_announce_response_def
        length_store split: prod.split send_result.split)
qed

theorem announce_uses_source_ip_witness:
  "\<exists>out st'. tracker_thread_turn toy_config
       (toy_io (toy_announce_request toy_token_bytes) (all_sent 26)) toy_tracker = Some (out, st')
     \<and> swarms st' = [[0, 0, 0, 0, 0, 0, 0, 0, 0, 0, 0, 0, 0, 0, 0, 0, 0, 0, 0, 1] \<mapsto>
                        \<lparr> seeds = 0, download_count = 0, downloaders = 1 \<rparr>]
     \<and> (\<exists>reply. sent st' = [(toy_client, reply)] \<and> drop 20 reply = [10, 0, 0, 1, 0x1A, 0xE1])"
  using announce_uses_source_ip [where w = "toy_io (toy_announce_request toy_token_bytes) (all_sent 26)"
      and ?from = toy_client and buffer = "toy_announce_request toy_token_bytes" and cfg = toy_config
      and st = toy_tracker] toy_announce_request_facts
  by (simp add: toy_io_def all_sent_def toy_config_simps toy_announce_hdr toy_announce_new
      toy_client_def toy_tracker_def Let_def)

lemma announce_interval_in_range:
  assumes "0 \<le> r" and "r \<le> RAND_MAX cfg" and "RAND_MAX cfg * 240 < 2 ^ 31"
  shows "1680 \<le> announce_interval cfg r \<and> announce_interval cfg r \<le> 1920"
proof -
  let ?m = "RAND_MAX cfg"
  have prod: "0 \<le> r * 240" "r * 240 \<le> ?m * 240"
    using assms(1,2) by simp_all
  then have "int32 (r * 240) = r * 240"
    using assms(3) by (intro int32_id) simp_all
  moreover have "(r * 240) sdiv ?m = (r * 240) div ?m"
    using prod assms(1,2) by (simp add: signed_divide_int_def sgn_if)
  moreover have "0 \<le> (r * 240) div ?m"
    using prod assms(1,2) by (simp add: div_int_pos_iff)
  moreover have "(r * 240) div ?m \<le> 240"
  proof (cases "?m = 0")
    case True
    then show ?thesis by simp
  next
    case False
    with assms(1,2) have "0 < ?m" by simp
    then have "(r * 240) div ?m \<le> (?m * 240) div ?m"
      using prod(2) by (intro zdiv_mono1) simp_all
    with \<open>0 < ?m\<close> show ?thesis by simp
  qed
  ultimately show ?thesis
    by (simp add: announce_interval_def int32_id)
qed

text \<open>
  Claim C4. The interval is \<^verbatim>\<open>1680 + rand() * 240 / RAND_MAX\<close> on 32-bit \<^verbatim>\<open>int\<close>s. Where
  \<open>RAND_MAX * 240\<close> fits an \<^verbatim>\<open>int\<close> the value lies in \<open>[1680, 1920]\<close>
  (\<open>announce_interval_in_range\<close>). With glibc's \<open>RAND_MAX = 2^31 - 1\<close> the product
  overflows: for \<^verbatim>\<open>rand() = 2^27\<close> it wraps to \<open>-2^31\<close>, the quotient is \<open>-1\<close> and the
  interval is 1679.
\<close>

theorem interval_below_range:
  assumes "RAND_MAX cfg = 2147483647"
  shows "announce_interval cfg 134217728 = 1679"
  using assms by (simp add: announce_interval_def int32_def signed_divide_int_def)

theorem interval_below_range_witness:
  "tracker_thread_turn toy_config (toy_io (toy_announce_request toy_token_bytes) (all_sent 26)) toy_tracker =
     Some (Continue, toy_tracker\<lparr>announces := 1, bytes_out := 26, bytes_in := 98,
        swarms := [[0, 0, 0, 0, 0, 0, 0, 0, 0, 0, 0, 0, 0, 0, 0, 0, 0, 0, 0, 1] \<mapsto>
                     \<lparr> seeds = 0, download_count = 0, downloaders = 1 \<rparr>],
        sent := [(toy_client, [0, 0, 0, 1, 0xDE, 0xAD, 0xBE, 0xEF, 0, 0, 6, 0x8F, 0, 0, 0, 1, 0, 0, 0, 0,
                               10, 0, 0, 1, 0x1A, 0xE1])]\<rparr>)"
proof -
  let ?buffer = "toy_announce_request toy_token_bytes"
  let ?w = "toy_io ?buffer (all_sent 26)"
  have rx: "recvfrom_result ?w = Received toy_client ?buffer" "rand_result ?w = 134217728"
    "send_results ?w 0 = SendOk 26"
    by (simp_all add: toy_io_def all_sent_def)
  have len: "16 \<le> length ?buffer" "98 \<le> length ?buffer"
    by (simp_all add: toy_announce_request_facts)
  have ival: "announce_interval toy_config 134217728 = 1679"
    using interval_below_range [of toy_config] by (simp add: toy_config_simps)
  have img: "store BigEndian (1679 :: uint32_t) = [0, 0, 6, 0x8F]"
    "store BigEndian (1 :: uint32_t) = [0, 0, 0, 1]"
    "store BigEndian (0 :: uint32_t) = [0, 0, 0, 0]"
    by (simp_all add: store_def le_bytes_numeral)
  have tid: "store LittleEndian (transaction_id (as_udp_announce_message LittleEndian ?buffer)) = [0xDE, 0xAD, 0xBE, 0xEF]"
    using header_fields(3) [of ?buffer LittleEndian] len by (simp add: toy_announce_hdr)
  have "tracker_thread_turn toy_config ?w toy_tracker =
      announce_case toy_config ?w toy_client (length ?buffer)
        (as_udp_announce_message (host_order toy_config) ?buffer)
        (toy_tracker\<lparr>bytes_in := bytes_in toy_tracker + of_nat (length ?buffer)\<rparr>)"
    using toy_announce_request_facts(2)
    by (simp add: turn_dispatch [OF rx(1) len(1)] Let_def action_connect_def action_announce_def)
  also note announce_case_verified [OF toy_announce_request_facts(3) len(2)]
  finally show ?thesis
    by (simp add: Let_def rx ival toy_announce_request_facts(1)
        toy_config_simps toy_announce_hdr toy_client_def toy_announce_new
        udp_announce_response_def store_htonl img tid toy_tracker_def action_announce_def)
qed

text \<open>
  Claim C7. On the announce path an interrupted \<^verbatim>\<open>sendmsg\<close> is not retried: the
  \<^verbatim>\<open>continue\<close> of line 307 jumps to the condition of \<^verbatim>\<open>do ... while (false)\<close> and leaves
  the loop, so the response is dropped and the worker goes on to the next datagram.
  \<open>respond\<close>, which the connect and scrape paths use, does retry
  (\<open>respond_interrupted\<close>, \<open>respond_sent\<close>), and any other error ends the worker on
  every path (\<open>respond_failed\<close>, \<open>announce_case_verified\<close>).
\<close>

theorem announce_send_not_retried:
  assumes "recvfrom_result w = Received from buffer"
    and "98 \<le> length buffer"
    and "load BigEndian (field 8 4 buffer) = action_announce"
    and "verify_connection_id cfg (connection_id (as_udp_announce_message (host_order cfg) buffer)) from"
    and "send_results w 0 = SendFailed EINTR"
  shows "\<exists>st'. tracker_thread_turn cfg w st = Some (Continue, st')
           \<and> sent st' = sent st \<and> bytes_out st' = bytes_out st"
proof -
  have "16 \<le> length buffer"
    using assms(2) by simp
  from turn_dispatch [OF assms(1) this] assms(3)
  have "tracker_thread_turn cfg w st =
      announce_case cfg w from (length buffer) (as_udp_announce_message (host_order cfg) buffer)
        (st\<lparr>bytes_in := bytes_in st + of_nat (length buffer)\<rparr>)"
    by (simp add: Let_def action_connect_def action_announce_def)
  then show ?thesis
    using assms(5) by (simp add: announce_case_verified [OF assms(4,2)] Let_def)
qed

theorem announce_send_not_retried_witness:
  "\<exists>st'. tracker_thread_turn toy_config
            (toy_io (toy_announce_request toy_token_bytes) (interrupted_once 26)) toy_tracker
          = Some (Continue, st')
        \<and> sent st' = [] \<and> bytes_out st' = 0
        \<and> interrupted_once 26 1 = SendOk 26"
  using announce_send_not_retried [where w = "toy_io (toy_announce_request toy_token_bytes) (interrupted_once 26)"
      and ?from = toy_client and buffer = "toy_announce_request toy_token_bytes" and cfg = toy_config
      and st = toy_tracker] toy_announce_request_facts
  by (simp add: toy_io_def interrupted_once_def) (simp add: toy_tracker_def)

section \<open>Scrape\<close>

text \<open>
  Claim C8, as amended. A scrape request with a valid token and at least 36 bytes, that is
  with at least one whole info-hash, is answered, once \<^verbatim>\<open>sendto\<close> succeeds, with one
  entry for each of the first \<open>min ((size - 16) div 20) max_scrape_responses\<close> hashes, and
  the datagram sent is exactly \<open>8 + 12 * n\<close> bytes long: action 2, the transaction id,
  then the entries.
\<close>

theorem scrape_answers_min_entries:
  assumes "recvfrom_result w = Received from buffer"
    and "36 \<le> length buffer"
    and "load BigEndian (field 8 4 buffer) = action_scrape"
    and "verify_connection_id cfg (connection_id (as_udp_announce_message (host_order cfg) buffer)) from"
    and "\<forall>j<k. send_results w j = SendFailed EINTR"
    and "send_results w k = SendOk r"
  shows "let n = min ((length buffer - 16) div 20) (max_scrape_responses cfg);
             entry = (\<lambda>i. case swarms st (scrape_hash buffer i) of
                             Some s \<Rightarrow>
                               (case swarm_scrape cfg s of
                                  (sd, dc, dl) \<Rightarrow> store BigEndian sd @ store BigEndian dc @ store BigEndian dl)
                           | None \<Rightarrow> scrape_data_bytes (host_order cfg) (resp_before w i));
             reply = [0, 0, 0, 2] @ field 12 4 buffer @ concat (map entry [0..<n])
         in tracker_thread_turn cfg w st =
              Some (Continue, st\<lparr>scrapes := scrapes st + 1,
                                  bytes_out := bytes_out st + of_nat r,
                                  bytes_in := bytes_in st + of_nat (length buffer),
                                  sent := sent st @ [(from, reply)]\<rparr>)
            \<and> length reply = 8 + 12 * n"
proof -
  have sys: "\<forall>j<k. send_results w (0 + j) = SendFailed EINTR" "send_results w (0 + k) = SendOk r"
    using assms(5,6) by simp_all
  have "12 + 4 \<le> length buffer"
    using assms(2) by simp
  then have "length (field 12 4 buffer) = 4"
    by (rule length_field)
  then show ?thesis
    by (simp add: scrape_turn [OF assms(1-4)] Let_def respond_sent [OF sys] length_scrape_entries
        del: append.simps upt_Suc)
qed

theorem scrape_answers_min_entries_witness:
  "tracker_thread_turn toy_config (toy_io toy_scrape_request (interrupted_once 32)) toy_seeded =
     Some (Continue, toy_seeded\<lparr>scrapes := 1, bytes_out := 32, bytes_in := 61,
        sent := [(toy_client, [0, 0, 0, 2, 0xDE, 0xAD, 0xBE, 0xEF,
                               0, 0, 0, 1, 0, 0, 0, 1, 0, 0, 0, 0,
                               0xEF, 0xBE, 0xAD, 0xDE, 0xEF, 0xBE, 0xAD, 0xDE, 0xEF, 0xBE, 0xAD, 0xDE])]\<rparr>)"
  using scrape_answers_min_entries [where w = "toy_io toy_scrape_request (interrupted_once 32)"
      and ?from = toy_client and buffer = toy_scrape_request and cfg = toy_config and k = 1 and r = 32
      and st = toy_seeded] toy_scrape_request_facts
  by (simp add: toy_io_def interrupted_once_def Let_def toy_config_simps toy_scrape_hashes
      toy_seeded_def toy_tracker_def scrape_data_bytes_def toy_images numeral_2_eq_2)

text \<open>
  Without the bound of 36 bytes the claim fails. A scrape of 16 bytes that carries a valid
  token and no hash would, by the claim, be answered with \<open>8 + 12 * 0\<close> bytes; the
  check of lines 324 to 330 rejects it instead: \<open>errors\<close> goes up and nothing is sent.
\<close>

theorem scrape_without_hash_counterexample:
  "load BigEndian (field 8 4 (take 16 toy_scrape_request)) = action_scrape
   \<and> verify_connection_id toy_config
        (connection_id (as_udp_announce_message (host_order toy_config) (take 16 toy_scrape_request)))
        toy_client
   \<and> min ((length (take 16 toy_scrape_request) - 16) div 20) (max_scrape_responses toy_config) = 0
   \<and> tracker_thread_turn toy_config (toy_io (take 16 toy_scrape_request) (all_sent 8)) toy_seeded =
        Some (Continue, toy_seeded\<lparr>errors := 1, bytes_in := 16\<rparr>)
   \<and> sent (toy_seeded\<lparr>errors := 1, bytes_in := 16\<rparr>) = []"
proof -
  have rx: "recvfrom_result (toy_io (take 16 toy_scrape_request) (all_sent 8)) =
      Received toy_client (take 16 toy_scrape_request)"
    by (simp add: toy_io_def)
  have len: "16 \<le> length (take 16 toy_scrape_request)" "length (take 16 toy_scrape_request) < 36"
    unfolding toy_scrape_header_facts(1) by simp_all
  have turn: "tracker_thread_turn toy_config (toy_io (take 16 toy_scrape_request) (all_sent 8)) toy_seeded =
      Some (Continue, toy_seeded\<lparr>errors := 1, bytes_in := 16\<rparr>)"
    unfolding short_scrape_is_dropped [OF rx len toy_scrape_header_facts(2,3)] toy_scrape_header_facts(1)
    by (simp add: toy_seeded_def toy_tracker_def)
  show ?thesis
    using toy_scrape_header_facts(2,3)
    by (simp add: turn toy_scrape_header_facts(1)) (simp add: toy_seeded_def toy_tracker_def)
qed

text \<open>
  Claim C3. The entry of a hash that has a swarm carries the swarm's three counters in
  network byte order (\<open>scrape_known_hash_counters\<close>). The entry of a hash without a swarm
  is not zeroed: the loop of lines 346 to 359 has no branch for it and \<^verbatim>\<open>resp\<close> is not
  initialized, so the twelve bytes sent are whatever the stack held.
\<close>

theorem scrape_unknown_hash_keeps_stack:
  assumes "recvfrom_result w = Received from buffer"
    and "36 \<le> length buffer"
    and "load BigEndian (field 8 4 buffer) = action_scrape"
    and "verify_connection_id cfg (connection_id (as_udp_announce_message (host_order cfg) buffer)) from"
    and "\<forall>j<k. send_results w j = SendFailed EINTR"
    and "send_results w k = SendOk r"
    and "i < min ((length buffer - 16) div 20) (max_scrape_responses cfg)"
    and "swarms st (scrape_hash buffer i) = None"
  shows "\<exists>st' reply. tracker_thread_turn cfg w st = Some (Continue, st')
           \<and> sent st' = sent st @ [(from, reply)]
           \<and> field (8 + 12 * i) 12 reply = scrape_data_bytes (host_order cfg) (resp_before w i)"
proof -
  let ?n = "min ((length buffer - 16) div 20) (max_scrape_responses cfg)"
  let ?entry = "\<lambda>i. case swarms st (scrape_hash buffer i) of
                        Some s \<Rightarrow>
                          (case swarm_scrape cfg s of
                             (sd, dc, dl) \<Rightarrow> store BigEndian sd @ store BigEndian dc @ store BigEndian dl)
                      | None \<Rightarrow> scrape_data_bytes (host_order cfg) (resp_before w i)"
  let ?reply = "[0, 0, 0, 2] @ field 12 4 buffer @ concat (map ?entry [0..<?n])"
  have sys: "\<forall>j<k. send_results w (0 + j) = SendFailed EINTR" "send_results w (0 + k) = SendOk r"
    using assms(5,6) by simp_all
  have len: "16 \<le> length buffer"
    using assms(2) by simp
  have "\<forall>j<?n. length (?entry j) = 12"
    by (auto simp add: length_store length_scrape_data_bytes split: option.split prod.split)
  from scrape_entry_of_reply [OF len this assms(7)] assms(8)
  have "field (8 + 12 * i) 12 ?reply = scrape_data_bytes (host_order cfg) (resp_before w i)"
    by simp
  then show ?thesis
    by (simp add: scrape_turn [OF assms(1-4)] Let_def respond_sent [OF sys] del: append.simps upt_Suc)
qed

theorem scrape_unknown_hash_keeps_stack_witness:
  "\<exists>st' reply. tracker_thread_turn toy_config (toy_io toy_scrape_request (all_sent 32)) toy_seeded =
        Some (Continue, st')
     \<and> sent st' = [(toy_client, reply)]
     \<and> field 20 12 reply = [0xEF, 0xBE, 0xAD, 0xDE, 0xEF, 0xBE, 0xAD, 0xDE, 0xEF, 0xBE, 0xAD, 0xDE]"
  using scrape_unknown_hash_keeps_stack [where w = "toy_io toy_scrape_request (all_sent 32)"
      and ?from = toy_client and buffer = toy_scrape_request and cfg = toy_config and k = 0 and r = 32
      and st = toy_seeded and i = 1] toy_scrape_request_facts
  by (simp add: toy_io_def all_sent_def toy_config_simps toy_scrape_hashes
      toy_seeded_def toy_tracker_def scrape_data_bytes_def toy_images)

lemma scrape_known_hash_counters:
  assumes "recvfrom_result w = Received from buffer"
    and "36 \<le> length buffer"
    and "load BigEndian (field 8 4 buffer) = action_scrape"
    and "verify_connection_id cfg (connection_id (as_udp_announce_message (host_order cfg) buffer)) from"
    and "\<forall>j<k. send_results w j = SendFailed EINTR"
    and "send_results w k = SendOk r"
    and "i < min ((length buffer - 16) div 20) (max_scrape_responses cfg)"
    and "swarms st (scrape_hash buffer i) = Some s"
    and "swarm_scrape cfg s = (sd, dc, dl)"
  shows "\<exists>st' reply. tracker_thread_turn cfg w st = Some (Continue, st')
           \<and> sent st' = sent st @ [(from, reply)]
           \<and> field (8 + 12 * i) 12 reply = store BigEndian sd @ store BigEndian dc @ store BigEndian dl"
proof -
  let ?n = "min ((length buffer - 16) div 20) (max_scrape_responses cfg)"
  let ?entry = "\<lambda>i. case swarms st (scrape_hash buffer i) of
                        Some s \<Rightarrow>
                          (case swarm_scrape cfg s of
                             (sd, dc, dl) \<Rightarrow> store BigEndian sd @ store BigEndian dc @ store BigEndian dl)
                      | None \<Rightarrow> scrape_data_bytes (host_order cfg) (resp_before w i)"
  let ?reply = "[0, 0, 0, 2] @ field 12 4 buffer @ concat (map ?entry [0..<?n])"
  have sys: "\<forall>j<k. send_results w (0 + j) = SendFailed EINTR" "send_results w (0 + k) = SendOk r"
    using assms(5,6) by simp_all
  have len: "16 \<le> length buffer"
    using assms(2) by simp
  have "\<forall>j<?n. length (?entry j) = 12"
    by (auto simp add: length_store length_scrape_data_bytes split: option.split prod.split)
  from scrape_entry_of_reply [OF len this assms(7)] assms(8,9)
  have "field (8 + 12 * i) 12 ?reply = store BigEndian sd @ store BigEndian dc @ store BigEndian dl"
    by simp
  then show ?thesis
    by (simp add: scrape_turn [OF assms(1-4)] Let_def respond_sent [OF sys] del: append.simps upt_Suc)
qed

text \<open>
  Claim C10. A scrape datagram with a valid token and fewer than 36 bytes is rejected:
  \<open>errors\<close> goes up by one and nothing is sent. A longer one carries
  \<open>k = (size - 16) div 20\<close> hashes, and the bytes after the last whole hash are ignored:
  \<^item> cutting the datagram down to its \<open>k\<close> whole hashes changes nothing in the turn but
    the count of bytes received, whatever course the sends take;
  \<^item> once \<^verbatim>\<open>sendto\<close> succeeds, the reply holds one entry for each of the first
    \<open>min k max_scrape_responses\<close> hashes of the datagram, in their order, and nothing
    else after the 8-byte header; so it holds exactly \<open>k\<close> entries unless the cap is
    smaller.
\<close>

theorem scrape_needs_whole_hash:
  assumes "recvfrom_result w = Received from buffer"
    and "16 \<le> length buffer"
    and "load BigEndian (field 8 4 buffer) = action_scrape"
    and "verify_connection_id cfg (connection_id (as_udp_announce_message (host_order cfg) buffer)) from"
  shows "(length buffer < 36 \<longrightarrow>
            tracker_thread_turn cfg w st =
              Some (Continue, st\<lparr>errors := errors st + 1,
                                  bytes_in := bytes_in st + of_nat (length buffer)\<rparr>))
       \<and> (36 \<le> length buffer \<longrightarrow>
            (let k = (length buffer - 16) div 20;
                 n = min k (max_scrape_responses cfg);
                 w' = w\<lparr>recvfrom_result := Received from (take (16 + 20 * k) buffer)\<rparr>;
                 entry = (\<lambda>i. case swarms st (scrape_hash buffer i) of
                                 Some s \<Rightarrow>
                                   (case swarm_scrape cfg s of
                                      (sd, dc, dl) \<Rightarrow>
                                        store BigEndian sd @ store BigEndian dc @ store BigEndian dl)
                               | None \<Rightarrow> scrape_data_bytes (host_order cfg) (resp_before w i));
                 reply = [0, 0, 0, 2] @ field 12 4 buffer @ concat (map entry [0..<n])
             in map_option (\<lambda>(out, st'). (out, st'\<lparr>bytes_in := 0\<rparr>)) (tracker_thread_turn cfg w' st) =
                map_option (\<lambda>(out, st'). (out, st'\<lparr>bytes_in := 0\<rparr>)) (tracker_thread_turn cfg w st)
              \<and> length reply = 8 + 12 * n
              \<and> (k \<le> max_scrape_responses cfg \<longrightarrow> length reply = 8 + 12 * k)
              \<and> (\<forall>j r. (\<forall>i<j. send_results w i = SendFailed EINTR) \<and> send_results w j = SendOk r \<longrightarrow>
                    tracker_thread_turn cfg w st =
                      Some (Continue, st\<lparr>scrapes := scrapes st + 1,
                                          bytes_out := bytes_out st + of_nat r,
                                          bytes_in := bytes_in st + of_nat (length buffer),
                                          sent := sent st @ [(from, reply)]\<rparr>))))"
proof (intro conjI impI)
  assume "length buffer < 36"
  with assms show "tracker_thread_turn cfg w st =
      Some (Continue, st\<lparr>errors := errors st + 1, bytes_in := bytes_in st + of_nat (length buffer)\<rparr>)"
    by (intro short_scrape_is_dropped)
next
  assume big: "36 \<le> length buffer"
  let ?k = "(length buffer - 16) div 20"
  let ?n = "min ?k (max_scrape_responses cfg)"
  let ?entry = "\<lambda>i. case swarms st (scrape_hash buffer i) of
                        Some s \<Rightarrow>
                          (case swarm_scrape cfg s of
                             (sd, dc, dl) \<Rightarrow> store BigEndian sd @ store BigEndian dc @ store BigEndian dl)
                      | None \<Rightarrow> scrape_data_bytes (host_order cfg) (resp_before w i)"
  let ?reply = "[0, 0, 0, 2] @ field 12 4 buffer @ concat (map ?entry [0..<?n])"
  let ?w' = "w\<lparr>recvfrom_result := Received from (take (16 + 20 * ?k) buffer)\<rparr>"
  have cut: "map_option (\<lambda>(out, st'). (out, st'\<lparr>bytes_in := 0\<rparr>)) (tracker_thread_turn cfg ?w' st) =
      map_option (\<lambda>(out, st'). (out, st'\<lparr>bytes_in := 0\<rparr>)) (tracker_thread_turn cfg w st)"
    using scrape_trailing_bytes_ignored [OF assms(1) big assms(3,4), of st]
    by (simp only: Let_def)
  have len: "length ?reply = 8 + 12 * ?n"
    using assms(2) by (rule length_scrape_reply)
  have len_k: "length ?reply = 8 + 12 * ?k" if "?k \<le> max_scrape_responses cfg"
    using len that by (simp only: min_absorb1)
  have answered: "tracker_thread_turn cfg w st =
      Some (Continue, st\<lparr>scrapes := scrapes st + 1,
                          bytes_out := bytes_out st + of_nat r,
                          bytes_in := bytes_in st + of_nat (length buffer),
                          sent := sent st @ [(from, ?reply)]\<rparr>)"
    if "\<forall>i<j. send_results w i = SendFailed EINTR" and "send_results w j = SendOk r" for j r
    using scrape_turn_sent [OF assms(1) big assms(3,4) that] .
  show "let k = (length buffer - 16) div 20;
            n = min k (max_scrape_responses cfg);
            w' = w\<lparr>recvfrom_result := Received from (take (16 + 20 * k) buffer)\<rparr>;
            entry = (\<lambda>i. case swarms st (scrape_hash buffer i) of
                            Some s \<Rightarrow>
                              (case swarm_scrape cfg s of
                                 (sd, dc, dl) \<Rightarrow>
                                   store BigEndian sd @ store BigEndian dc @ store BigEndian dl)
                          | None \<Rightarrow> scrape_data_bytes (host_order cfg) (resp_before w i));
            reply = [0, 0, 0, 2] @ field 12 4 buffer @ concat (map entry [0..<n])
        in map_option (\<lambda>(out, st'). (out, st'\<lparr>bytes_in := 0\<rparr>)) (tracker_thread_turn cfg w' st) =
           map_option (\<lambda>(out, st'). (out, st'\<lparr>bytes_in := 0\<rparr>)) (tracker_thread_turn cfg w st)
         \<and> length reply = 8 + 12 * n
         \<and> (k \<le> max_scrape_responses cfg \<longrightarrow> length reply = 8 + 12 * k)
         \<and> (\<forall>j r. (\<forall>i<j. send_results w i = SendFailed EINTR) \<and> send_results w j = SendOk r \<longrightarrow>
               tracker_thread_turn cfg w st =
                 Some (Continue, st\<lparr>scrapes := scrapes st + 1,
                                     bytes_out := bytes_out st + of_nat r,
                                     bytes_in := bytes_in st + of_nat (length buffer),
                                     sent := sent st @ [(from, reply)]\<rparr>))"
    unfolding Let_def using cut len len_k answered by blast
qed

theorem scrape_needs_whole_hash_witness:
  "tracker_thread_turn toy_config (toy_io (take 35 toy_scrape_request) (all_sent 20)) toy_seeded =
     Some (Continue, toy_seeded\<lparr>errors := 1, bytes_in := 35\<rparr>)
   \<and> map_option (\<lambda>(out, st'). (out, st'\<lparr>bytes_in := 0\<rparr>))
        (tracker_thread_turn toy_config (toy_io (take 56 toy_scrape_request) (all_sent 32)) toy_seeded) =
     map_option (\<lambda>(out, st'). (out, st'\<lparr>bytes_in := 0\<rparr>))
        (tracker_thread_turn toy_config (toy_io toy_scrape_request (all_sent 32)) toy_seeded)
   \<and> (length toy_scrape_request - 16) div 20 = 2
   \<and> tracker_thread_turn toy_config (toy_io toy_scrape_request (all_sent 32)) toy_seeded =
       Some (Continue, toy_seeded\<lparr>scrapes := 1, bytes_out := 32, bytes_in := 61,
          sent := [(toy_client, [0, 0, 0, 2, 0xDE, 0xAD, 0xBE, 0xEF,
                                 0, 0, 0, 1, 0, 0, 0, 1, 0, 0, 0, 0,
                                 0xEF, 0xBE, 0xAD, 0xDE, 0xEF, 0xBE, 0xAD, 0xDE, 0xEF, 0xBE, 0xAD, 0xDE])]\<rparr>)"
proof (intro conjI)
  show "tracker_thread_turn toy_config (toy_io (take 35 toy_scrape_request) (all_sent 20)) toy_seeded =
      Some (Continue, toy_seeded\<lparr>errors := 1, bytes_in := 35\<rparr>)"
    using scrape_needs_whole_hash [where w = "toy_io (take 35 toy_scrape_request) (all_sent 20)"
        and ?from = toy_client and buffer = "take 35 toy_scrape_request" and cfg = toy_config
        and st = toy_seeded] toy_scrape_request_facts
    by (simp add: toy_io_def) (simp add: toy_seeded_def toy_tracker_def)
  let ?w = "toy_io toy_scrape_request (all_sent 32)"
  have rx: "recvfrom_result ?w = Received toy_client toy_scrape_request"
    by (simp add: toy_io_def)
  have small: "16 \<le> length toy_scrape_request" and big: "36 \<le> length toy_scrape_request"
    by (simp_all add: toy_scrape_request_facts(1))
  note whole = scrape_needs_whole_hash [OF rx small toy_scrape_request_facts(2,3), of toy_seeded]
  from whole big
  have cut: "map_option (\<lambda>(out, st'). (out, st'\<lparr>bytes_in := 0\<rparr>))
        (tracker_thread_turn toy_config
           (?w\<lparr>recvfrom_result :=
                 Received toy_client (take (16 + 20 * ((length toy_scrape_request - 16) div 20)) toy_scrape_request)\<rparr>)
           toy_seeded) =
     map_option (\<lambda>(out, st'). (out, st'\<lparr>bytes_in := 0\<rparr>)) (tracker_thread_turn toy_config ?w toy_seeded)"
    unfolding Let_def by blast
  then show "map_option (\<lambda>(out, st'). (out, st'\<lparr>bytes_in := 0\<rparr>))
        (tracker_thread_turn toy_config (toy_io (take 56 toy_scrape_request) (all_sent 32)) toy_seeded) =
     map_option (\<lambda>(out, st'). (out, st'\<lparr>bytes_in := 0\<rparr>))
        (tracker_thread_turn toy_config (toy_io toy_scrape_request (all_sent 32)) toy_seeded)"
    by (simp add: toy_io_def toy_scrape_request_facts(1))
  show "(length toy_scrape_request - 16) div 20 = 2"
    by (simp add: toy_scrape_request_facts(1))
  have sys: "\<forall>i<0. send_results ?w i = SendFailed EINTR" "send_results ?w 0 = SendOk 32"
    by (simp_all add: toy_io_def all_sent_def)
  from whole big sys
  have "tracker_thread_turn toy_config ?w toy_seeded =
      Some (Continue, toy_seeded\<lparr>scrapes := scrapes toy_seeded + 1,
          bytes_out := bytes_out toy_seeded + of_nat 32,
          bytes_in := bytes_in toy_seeded + of_nat (length toy_scrape_request),
          sent := sent toy_seeded @
            [(toy_client, [0, 0, 0, 2] @ field 12 4 toy_scrape_request @
               concat (map (\<lambda>i. case swarms toy_seeded (scrape_hash toy_scrape_request i) of
                                   Some s \<Rightarrow>
                                     (case swarm_scrape toy_config s of
                                        (sd, dc, dl) \<Rightarrow>
                                          store BigEndian sd @ store BigEndian dc @ store BigEndian dl)
                                 | None \<Rightarrow> scrape_data_bytes (host_order toy_config) (resp_before ?w i))
                       [0..<min ((length toy_scrape_request - 16) div 20) (max_scrape_responses toy_config)]))]\<rparr>)"
    unfolding Let_def by blast
  then show "tracker_thread_turn toy_config (toy_io toy_scrape_request (all_sent 32)) toy_seeded =
       Some (Continue, toy_seeded\<lparr>scrapes := 1, bytes_out := 32, bytes_in := 61,
          sent := [(toy_client, [0, 0, 0, 2, 0xDE, 0xAD, 0xBE, 0xEF,
                                 0, 0, 0, 1, 0, 0, 0, 1, 0, 0, 0, 0,
                                 0xEF, 0xBE, 0xAD, 0xDE, 0xEF, 0xBE, 0xAD, 0xDE, 0xEF, 0xBE, 0xAD, 0xDE])]\<rparr>)"
    by (simp add: toy_io_def Let_def toy_config_simps toy_scrape_hashes toy_scrape_request_facts(1)
        toy_seeded_def toy_tracker_def scrape_data_bytes_def toy_images numeral_2_eq_2)
qed

end
